theory Spec2Isabelle
  imports Main
begin

section \<open>The BitBucket client of Package Control\<close>

text \<open>
  A shallow embedding of \<^verbatim>\<open>app/lib/package_control/clients/bitbucket_client.py\<close>.
  A Python \<^verbatim>\<open>str\<close> is a \<open>string\<close>, each \<open>char\<close> standing for the code point of the
  same number (0 to 255). An exception is a value of \<open>exn\<close>, and a function that may
  raise returns \<open>exn + 'a\<close>, with \<open>Inl\<close> for the exception.
\<close>

subsection \<open>Python values and exceptions\<close>

text \<open>
  What \<^verbatim>\<open>fetch_json\<close> yields: a parsed JSON document. An object is the list of its
  members in document order (keys distinct, as in the parsed \<^verbatim>\<open>dict\<close>); a number is
  an integer (no field read by this client holds a fraction).
\<close>

datatype json =
    JNull
  | JBool bool
  | JNum int
  | JStr string
  | JArr "json list"
  | JObj "(string \<times> json) list"

datatype exn =
    DownloaderException string
  | ClientException string
  | KeyError string
  | TypeError
  | ValueError
  | IndexError
  | AttributeError

text \<open>Truth value of a Python object, as \<^verbatim>\<open>if x\<close>, \<^verbatim>\<open>while x\<close> and \<^verbatim>\<open>x or y\<close> test it.\<close>

fun truthy :: "json \<Rightarrow> bool" where
  "truthy JNull = False"
| "truthy (JBool b) = b"
| "truthy (JNum n) = (n \<noteq> 0)"
| "truthy (JStr s) = (s \<noteq> [])"
| "truthy (JArr xs) = (xs \<noteq> [])"
| "truthy (JObj kvs) = (kvs \<noteq> [])"

text \<open>\<^verbatim>\<open>x or y\<close>.\<close>

definition py_or :: "json \<Rightarrow> json \<Rightarrow> json" where
  "py_or x y = (if truthy x then x else y)"

text \<open>\<^verbatim>\<open>d[k]\<close> for a string key \<open>k\<close>: only a \<^verbatim>\<open>dict\<close> accepts it.\<close>

fun getitem :: "json \<Rightarrow> string \<Rightarrow> exn + json" where
  "getitem (JObj kvs) k = (case map_of kvs k of None \<Rightarrow> Inl (KeyError k) | Some v \<Rightarrow> Inr v)"
| "getitem _ k = Inl TypeError"

text \<open>\<^verbatim>\<open>d.get(k, default)\<close>: only a \<^verbatim>\<open>dict\<close> has the method.\<close>

fun dict_get :: "json \<Rightarrow> string \<Rightarrow> json \<Rightarrow> exn + json" where
  "dict_get (JObj kvs) k d = (case map_of kvs k of None \<Rightarrow> Inr d | Some v \<Rightarrow> Inr v)"
| "dict_get _ k d = Inl AttributeError"

text \<open>
  \<^verbatim>\<open>d[k] if k in d else None\<close>. At both places of the source where it stands,
  \<^verbatim>\<open>d['values']\<close> has been read before, so \<open>d\<close> is a \<^verbatim>\<open>dict\<close>.
\<close>

fun next_link :: "json \<Rightarrow> json" where
  "next_link (JObj kvs) = (case map_of kvs ''next'' of None \<Rightarrow> JNull | Some v \<Rightarrow> v)"
| "next_link _ = JNull"

text \<open>\<^verbatim>\<open>for x in v\<close>: the items a loop over \<open>v\<close> visits, in order.\<close>

fun py_iter :: "json \<Rightarrow> exn + json list" where
  "py_iter (JArr xs) = Inr xs"
| "py_iter (JObj kvs) = Inr (map (\<lambda>kv. JStr (fst kv)) kvs)"
| "py_iter (JStr s) = Inr (map (\<lambda>c. JStr [c]) s)"
| "py_iter _ = Inl TypeError"

text \<open>
  \<^verbatim>\<open>v[0:19].replace('T', ' ')\<close>: a string is cut and rewritten; a list is cut and
  then has no \<^verbatim>\<open>replace\<close>; nothing else can be sliced.
\<close>

definition replace_char :: "char \<Rightarrow> char \<Rightarrow> string \<Rightarrow> string" where
  "replace_char a b s = map (\<lambda>c. if c = a then b else c) s"

fun timestamp_of :: "json \<Rightarrow> exn + string" where
  "timestamp_of (JStr s) = Inr (replace_char (CHR ''T'') (CHR '' '') (take 19 s))"
| "timestamp_of (JArr xs) = Inl AttributeError"
| "timestamp_of _ = Inl TypeError"

subsection \<open>Regular expressions\<close>

text \<open>
  The fragment of Python's \<^verbatim>\<open>re\<close> that the client's patterns use, matched the way
  \<^verbatim>\<open>re.match\<close> does: from the start of the string, by backtracking, a greedy
  quantifier trying the longer match first. \<open>Dot\<close> is \<^verbatim>\<open>.\<close> (any character but a
  newline), \<open>NotIn cs\<close> is \<^verbatim>\<open>[^cs]\<close>, \<open>Opt\<close> is \<^verbatim>\<open>?\<close>, \<open>Plus\<close> is \<^verbatim>\<open>+\<close>, \<open>Open\<close>
  and \<open>Close\<close> are the parentheses of a group, and \<open>Eol\<close> is \<^verbatim>\<open>$\<close>: the end of the
  string, or the place before a newline that ends the string.
\<close>

datatype cls = Ch char | Dot | NotIn string

datatype item = One cls | Opt cls | Plus cls | Open | Close | Eol

fun accepts :: "cls \<Rightarrow> char \<Rightarrow> bool" where
  "accepts (Ch c) x = (x = c)"
| "accepts Dot x = (x \<noteq> CHR 0x0A)"
| "accepts (NotIn cs) x = (x \<notin> set cs)"

text \<open>The groups closed so far, and the text of the group that is open.\<close>

type_synonym caps = "string list \<times> string option"

fun push :: "char \<Rightarrow> caps \<Rightarrow> caps" where
  "push x (done, None) = (done, None)"
| "push x (done, Some w) = (done, Some (w @ [x]))"

fun open_group :: "caps \<Rightarrow> caps" where
  "open_group (done, cur) = (done, Some [])"

fun close_group :: "caps \<Rightarrow> caps" where
  "close_group (done, None) = (done, None)"
| "close_group (done, Some w) = (done @ [w], None)"

fun bt :: "item list \<Rightarrow> caps \<Rightarrow> string \<Rightarrow> string list option" where
  "bt [] st s = Some (fst st)"
| "bt (One c # rs) st [] = None"
| "bt (One c # rs) st (x # xs) = (if accepts c x then bt rs (push x st) xs else None)"
| "bt (Opt c # rs) st [] = bt rs st []"
| "bt (Opt c # rs) st (x # xs) =
     (if accepts c x
      then (case bt rs (push x st) xs of Some g \<Rightarrow> Some g | None \<Rightarrow> bt rs st (x # xs))
      else bt rs st (x # xs))"
| "bt (Plus c # rs) st [] = None"
| "bt (Plus c # rs) st (x # xs) =
     (if accepts c x
      then (case bt (Plus c # rs) (push x st) xs of
              Some g \<Rightarrow> Some g
            | None \<Rightarrow> bt rs (push x st) xs)
      else None)"
| "bt (Open # rs) st s = bt rs (open_group st) s"
| "bt (Close # rs) st s = bt rs (close_group st) s"
| "bt (Eol # rs) st s = (if s = [] \<or> s = [CHR 0x0A] then bt rs st s else None)"

text \<open>
  The number of groups that a match of the pattern closes, \<open>opn\<close> telling whether a
  group is open where the pattern starts.
\<close>

fun ngroups :: "item list \<Rightarrow> bool \<Rightarrow> nat" where
  "ngroups [] opn = 0"
| "ngroups (Open # rs) opn = ngroups rs True"
| "ngroups (Close # rs) opn = (if opn then 1 else 0) + ngroups rs False"
| "ngroups (r # rs) opn = ngroups rs opn"

text \<open>
  Whether no group that a match of the pattern closes can be empty, \<open>b\<close> telling
  whether the group open where the pattern starts has taken a character.
\<close>

fun ne_groups :: "item list \<Rightarrow> bool \<Rightarrow> bool" where
  "ne_groups [] b = True"
| "ne_groups (Open # rs) b = ne_groups rs False"
| "ne_groups (Close # rs) b = (b \<and> ne_groups rs True)"
| "ne_groups (One c # rs) b = ne_groups rs True"
| "ne_groups (Plus c # rs) b = ne_groups rs True"
| "ne_groups (r # rs) b = ne_groups rs b"

text \<open>\<^verbatim>\<open>re.match(pattern, s)\<close>: \<open>None\<close>, or the groups of the match.\<close>

definition re_match :: "item list \<Rightarrow> string \<Rightarrow> string list option" where
  "re_match p s = bt p ([], None) s"

definition lit :: "string \<Rightarrow> item list" where
  "lit s = map (\<lambda>c. One (Ch c)) s"

text \<open>\<^verbatim>\<open>m.group(n)\<close>, for \<open>n\<close> from 1.\<close>

definition group :: "string list \<Rightarrow> nat \<Rightarrow> exn + string" where
  "group g n = (if 0 < n \<and> n \<le> length g then Inr (g ! (n - 1)) else Inl IndexError)"

text \<open>\<^verbatim>\<open>https?://bitbucket.org/\<close>, the start of every pattern of the client.\<close>

definition host_pat :: "item list" where
  "host_pat = lit ''http'' @ [Opt (Ch (CHR ''s''))] @ lit ''://bitbucket'' @ [One Dot]
     @ lit ''org/''"

text \<open>\<^verbatim>\<open>https?://bitbucket.org/([^/]+/[^/]+)/?$\<close>\<close>

definition repo_pat :: "item list" where
  "repo_pat = host_pat @ [Open, Plus (NotIn ''/''), One (Ch (CHR ''/'')), Plus (NotIn ''/''),
     Close, Opt (Ch (CHR ''/'')), Eol]"

text \<open>\<^verbatim>\<open>https?://bitbucket.org/([^/]+/[^/]+)/src/([^/]+)/?$\<close>\<close>

definition branch_pat :: "item list" where
  "branch_pat = host_pat @ [Open, Plus (NotIn ''/''), One (Ch (CHR ''/'')), Plus (NotIn ''/''),
     Close] @ lit ''/src/'' @ [Open, Plus (NotIn ''/''), Close, Opt (Ch (CHR ''/'')), Eol]"

text \<open>\<^verbatim>\<open>https?://bitbucket.org/([^/]+/[^#/]+)/?#tags$\<close>\<close>

definition tags_pat :: "item list" where
  "tags_pat = host_pat @ [Open, Plus (NotIn ''/''), One (Ch (CHR ''/'')), Plus (NotIn ''#/''),
     Close, Opt (Ch (CHR ''/''))] @ lit ''#tags'' @ [Eol]"

subsection \<open>Strings: \<^verbatim>\<open>str\<close>, \<^verbatim>\<open>quote\<close>, \<^verbatim>\<open>%\<close> and \<^verbatim>\<open>lower\<close>\<close>

definition hex_upper :: "nat \<Rightarrow> char" where
  "hex_upper n = ''0123456789ABCDEF'' ! (n mod 16)"

definition hex_lower :: "nat \<Rightarrow> char" where
  "hex_lower n = ''0123456789abcdef'' ! (n mod 16)"

fun dec_nat :: "nat \<Rightarrow> string" where
  "dec_nat n = (if n < 10 then [hex_upper n] else dec_nat (n div 10) @ [hex_upper (n mod 10)])"

declare dec_nat.simps [simp del]

definition dec_int :: "int \<Rightarrow> string" where
  "dec_int i = (if i < 0 then CHR ''-'' # dec_nat (nat (- i)) else dec_nat (nat i))"

fun join :: "string \<Rightarrow> string list \<Rightarrow> string" where
  "join sep [] = []"
| "join sep [x] = x"
| "join sep (x # y # ys) = x @ sep @ join sep (y # ys)"

text \<open>
  \<^verbatim>\<open>repr\<close> of a string: in single quotes, or in double quotes when it holds a single
  quote and no double quote; the quote, the backslash and what is not printable escaped.
\<close>

definition printable :: "char \<Rightarrow> bool" where
  "printable c = (let n = (of_char c :: nat) in
     (32 \<le> n \<and> n < 127) \<or> (161 \<le> n \<and> n \<noteq> 173))"

definition repr_char :: "char \<Rightarrow> char \<Rightarrow> string" where
  "repr_char q c =
     (if c = q \<or> c = CHR 0x5C then [CHR 0x5C, c]
      else if c = CHR 0x09 then [CHR 0x5C, CHR ''t'']
      else if c = CHR 0x0A then [CHR 0x5C, CHR ''n'']
      else if c = CHR 0x0D then [CHR 0x5C, CHR ''r'']
      else if printable c then [c]
      else [CHR 0x5C, CHR ''x'', hex_lower (of_char c div 16), hex_lower (of_char c)])"

definition repr_str :: "string \<Rightarrow> string" where
  "repr_str s =
     (let q = (if CHR 0x27 \<in> set s \<and> CHR 0x22 \<notin> set s then CHR 0x22 else CHR 0x27)
      in [q] @ concat (map (repr_char q) s) @ [q])"

fun py_repr :: "json \<Rightarrow> string" where
  "py_repr JNull = ''None''"
| "py_repr (JBool b) = (if b then ''True'' else ''False'')"
| "py_repr (JNum i) = dec_int i"
| "py_repr (JStr s) = repr_str s"
| "py_repr (JArr xs) = ''['' @ join '', '' (map py_repr xs) @ '']''"
| "py_repr (JObj kvs) =
     ''{'' @ join '', '' (map (\<lambda>kv. repr_str (fst kv) @ '': '' @ py_repr (snd kv)) kvs) @ ''}''"

text \<open>\<^verbatim>\<open>str(v)\<close>, which is what the directive \<^verbatim>\<open>%s\<close> renders.\<close>

fun py_str :: "json \<Rightarrow> string" where
  "py_str (JStr s) = s"
| "py_str v = py_repr v"

text \<open>
  \<^verbatim>\<open>template % args\<close> for templates whose only directive is \<^verbatim>\<open>%s\<close> (all templates
  of the client are such): \<^verbatim>\<open>TypeError\<close> when the arguments are too few or too
  many, \<^verbatim>\<open>ValueError\<close> at a \<^verbatim>\<open>%\<close> that ends the template.
\<close>

fun py_format :: "string \<Rightarrow> string list \<Rightarrow> exn + string" where
  "py_format [] [] = Inr []"
| "py_format [] (a # as) = Inl TypeError"
| "py_format [c] as =
     (if c = CHR ''%'' then Inl ValueError
      else (case py_format [] as of Inl e \<Rightarrow> Inl e | Inr r \<Rightarrow> Inr (c # r)))"
| "py_format (c # d # t) as =
     (if c = CHR ''%'' \<and> d = CHR ''s'' then
        (case as of
           [] \<Rightarrow> Inl TypeError
         | a # as' \<Rightarrow> (case py_format t as' of Inl e \<Rightarrow> Inl e | Inr r \<Rightarrow> Inr (a @ r)))
      else if c = CHR ''%'' \<and> d = CHR ''%'' then
        (case py_format t as of Inl e \<Rightarrow> Inl e | Inr r \<Rightarrow> Inr (c # r))
      else if c = CHR ''%'' then Inl ValueError
      else (case py_format (d # t) as of Inl e \<Rightarrow> Inl e | Inr r \<Rightarrow> Inr (c # r)))"

text \<open>
  \<^verbatim>\<open>urllib.parse.quote(s)\<close> with its default \<^verbatim>\<open>safe='/'\<close>: letters, digits and
  \<^verbatim>\<open>_.-~/\<close> stay; every other character becomes \<^verbatim>\<open>%XX\<close> for each byte of its
  UTF-8 encoding.
\<close>

definition always_safe :: "string" where
  "always_safe = ''ABCDEFGHIJKLMNOPQRSTUVWXYZabcdefghijklmnopqrstuvwxyz0123456789_.-~''"

definition utf8 :: "char \<Rightarrow> nat list" where
  "utf8 c = (let n = (of_char c :: nat) in
     if n < 128 then [n] else [192 + n div 64, 128 + n mod 64])"

definition quote_byte :: "nat \<Rightarrow> string" where
  "quote_byte n = [CHR ''%'', hex_upper (n div 16), hex_upper n]"

definition quote_char :: "char \<Rightarrow> string" where
  "quote_char c =
     (if c \<in> set (always_safe @ ''/'') then [c] else concat (map quote_byte (utf8 c)))"

definition quote :: "string \<Rightarrow> string" where
  "quote s = concat (map quote_char s)"

text \<open>
  \<^verbatim>\<open>s.lower()\<close>: A to Z, and the capital letters of Latin-1 (code points 192 to 222
  but for the multiplication sign 215), move up by 32.
\<close>

definition lower_char :: "char \<Rightarrow> char" where
  "lower_char c =
     (case map_of (zip ''ABCDEFGHIJKLMNOPQRSTUVWXYZ'' ''abcdefghijklmnopqrstuvwxyz'') c of
        Some d \<Rightarrow> d
      | None \<Rightarrow>
          (let n = (of_char c :: nat) in
           if 192 \<le> n \<and> n \<le> 222 \<and> n \<noteq> 215 then char_of (n + 32) else c))"

definition lower :: "string \<Rightarrow> string" where
  "lower s = map lower_char s"

text \<open>\<^verbatim>\<open>s.startswith(p)\<close>, and \<^verbatim>\<open>p in s\<close> for two strings.\<close>

definition startswith :: "string \<Rightarrow> string \<Rightarrow> bool" where
  "startswith s p = (take (length p) s = p)"

fun str_contains :: "string \<Rightarrow> string \<Rightarrow> bool" where
  "str_contains p [] = (p = [])"
| "str_contains p (c # cs) = (take (length p) (c # cs) = p \<or> str_contains p cs)"

subsection \<open>The URLs the client builds\<close>

definition make_repo_url :: "string \<Rightarrow> string \<Rightarrow> exn + string" where
  "make_repo_url owner_name repo_name =
     py_format ''https://bitbucket.com/%s/%s'' [quote owner_name, quote repo_name]"

text \<open>\<open>Inr None\<close> is the \<^verbatim>\<open>False\<close> that the source returns when the pattern fails.\<close>

definition make_tags_url :: "string \<Rightarrow> exn + string option" where
  "make_tags_url repo_url =
     (case re_match repo_pat repo_url of
        None \<Rightarrow> Inr None
      | Some g \<Rightarrow>
          (case group g 1 of
             Inl e \<Rightarrow> Inl e
           | Inr g1 \<Rightarrow>
               (case py_format ''https://bitbucket.org/%s#tags'' [g1] of
                  Inl e \<Rightarrow> Inl e
                | Inr u \<Rightarrow> Inr (Some u))))"

definition make_branch_url :: "string \<Rightarrow> string \<Rightarrow> exn + string option" where
  "make_branch_url repo_url branch =
     (case re_match repo_pat repo_url of
        None \<Rightarrow> Inr None
      | Some g \<Rightarrow>
          (case group g 1 of
             Inl e \<Rightarrow> Inl e
           | Inr g1 \<Rightarrow>
               (case py_format ''https://bitbucket.org/%s/src/%s'' [g1, quote branch] of
                  Inl e \<Rightarrow> Inl e
                | Inr u \<Rightarrow> Inr (Some u))))"

definition make_api_url :: "string \<Rightarrow> string \<Rightarrow> exn + string" where
  "make_api_url user_repo suffix =
     py_format ''https://api.bitbucket.org/2.0/repositories/%s%s'' [user_repo, suffix]"

definition url_pattern :: "string" where
  "url_pattern = ''https://bitbucket.org/%s/get/%s.zip''"

subsection \<open>The collaborators\<close>

text \<open>
  \<^verbatim>\<open>self.fetch_json(url, prefer_cached)\<close> is the transport of the host. It is a
  parameter of the model: a step of a server of any state type \<open>'s\<close>, which answers a
  request with a document or an exception and moves to a new state. The first argument
  is a Python value, since the client hands it whatever a page holds under \<^verbatim>\<open>next\<close>.
\<close>

type_synonym 's fetcher = "json \<Rightarrow> bool \<Rightarrow> 's \<Rightarrow> (exn + json) \<times> 's"

text \<open>
  A server that also records the requests it receives, in the order they arrive: it
  serves to say which requests a call of the client makes.
\<close>

definition logged :: "'s fetcher \<Rightarrow> ('s \<times> json list) fetcher" where
  "logged f u c = (\<lambda>(s, log). case f u c s of (r, s') \<Rightarrow> (r, (s', log @ [u])))"

text \<open>
  Modelled from the spec: \<^verbatim>\<open>version_process\<close> and \<^verbatim>\<open>version_sort\<close> come from the
  module \<^verbatim>\<open>versions\<close>, which is not among the sources. The spec gives their
  interface: the first takes tag names and an optional required prefix and yields
  entries \<^verbatim>\<open>{version, prefix}\<close>; the second orders such entries by version. Both
  are parameters of the model.
\<close>

record vinfo =
  info_version :: string
  info_prefix :: string

type_synonym version_process = "json list \<Rightarrow> string option \<Rightarrow> vinfo list"

type_synonym version_sort = "vinfo list \<Rightarrow> bool \<Rightarrow> vinfo list"

text \<open>\<^verbatim>\<open>self.settings\<close>, and \<^verbatim>\<open>settings.get(key, default)\<close>.\<close>

type_synonym settings = "string \<rightharpoonup> int"

definition settings_get :: "settings \<Rightarrow> string \<Rightarrow> int \<Rightarrow> int" where
  "settings_get st k d = (case st k of None \<Rightarrow> d | Some v \<Rightarrow> v)"

subsection \<open>The dictionary of tags\<close>

text \<open>
  \<^verbatim>\<open>tags_list\<close> is a \<^verbatim>\<open>dict\<close> filled from the pages: a list of pairs in insertion
  order. A key must be hashable, and \<^verbatim>\<open>True\<close> and \<^verbatim>\<open>False\<close> are the same keys as 1
  and 0. An assignment to a key that is there keeps the key and its place.
\<close>

type_synonym tagdict = "(json \<times> string) list"

fun hashable :: "json \<Rightarrow> bool" where
  "hashable (JArr xs) = False"
| "hashable (JObj kvs) = False"
| "hashable _ = True"

fun key_norm :: "json \<Rightarrow> json" where
  "key_norm (JBool b) = JNum (if b then 1 else 0)"
| "key_norm v = v"

definition key_eq :: "json \<Rightarrow> json \<Rightarrow> bool" where
  "key_eq a b = (key_norm a = key_norm b)"

fun dict_set :: "tagdict \<Rightarrow> json \<Rightarrow> string \<Rightarrow> tagdict" where
  "dict_set [] k v = [(k, v)]"
| "dict_set ((k', v') # d) k v =
     (if key_eq k' k then (k', v) # d else (k', v') # dict_set d k v)"

fun dict_lookup :: "tagdict \<Rightarrow> json \<Rightarrow> string option" where
  "dict_lookup [] k = None"
| "dict_lookup ((k', v') # d) k = (if key_eq k' k then Some v' else dict_lookup d k)"

definition dict_keys :: "tagdict \<Rightarrow> json list" where
  "dict_keys d = map fst d"

subsection \<open>\<^verbatim>\<open>download_info\<close>\<close>

record release =
  url :: string
  version :: string
  date :: string

text \<open>What \<^verbatim>\<open>download_info\<close> returns: \<^verbatim>\<open>None\<close>, \<^verbatim>\<open>False\<close> or a list of releases.\<close>

datatype dl_result = DL_None | DL_False | DL_List "release list"

text \<open>
  The body of \<^verbatim>\<open>for tag in tags_json['values']\<close>. Python evaluates the right-hand
  side of the assignment, then the key, then stores.
\<close>

fun merge_tags :: "tagdict \<Rightarrow> json list \<Rightarrow> exn + tagdict" where
  "merge_tags tags_list [] = Inr tags_list"
| "merge_tags tags_list (tag # rest) =
     (case getitem tag ''target'' of
        Inl e \<Rightarrow> Inl e
      | Inr target \<Rightarrow>
          (case getitem target ''date'' of
             Inl e \<Rightarrow> Inl e
           | Inr d \<Rightarrow>
               (case timestamp_of d of
                  Inl e \<Rightarrow> Inl e
                | Inr ts \<Rightarrow>
                    (case getitem tag ''name'' of
                       Inl e \<Rightarrow> Inl e
                     | Inr name \<Rightarrow>
                         if hashable name then merge_tags (dict_set tags_list name ts) rest
                         else Inl TypeError))))"

text \<open>
  \<^verbatim>\<open>while tags_url:\<close> with its three statements. The loop runs as long as the pages
  name a next page, so it is a partial function: \<open>None\<close> when it never ends.
\<close>

partial_function (option) collect_tags ::
  "'s fetcher \<Rightarrow> tagdict \<Rightarrow> json \<Rightarrow> 's \<Rightarrow> ((exn + tagdict) \<times> 's) option"
where
  "collect_tags fetch_json tags_list tags_url s =
     (if truthy tags_url then
        (case fetch_json tags_url False s of
           (Inl e, s') \<Rightarrow> Some (Inl e, s')
         | (Inr tags_json, s') \<Rightarrow>
             (case getitem tags_json ''values'' of
                Inl e \<Rightarrow> Some (Inl e, s')
              | Inr vals \<Rightarrow>
                  (case py_iter vals of
                     Inl e \<Rightarrow> Some (Inl e, s')
                   | Inr tags \<Rightarrow>
                       (case merge_tags tags_list tags of
                          Inl e \<Rightarrow> Some (Inl e, s')
                        | Inr tags_list' \<Rightarrow>
                            collect_tags fetch_json tags_list' (next_link tags_json) s'))))
      else Some (Inr tags_list, s))"

declare collect_tags.simps [code]

text \<open>
  \<^verbatim>\<open>for info in tag_info:\<close> with \<^verbatim>\<open>used_versions\<close> and \<^verbatim>\<open>output\<close> as they stand
  when the loop reaches \<open>info\<close>; the \<^verbatim>\<open>break\<close> returns the output.
\<close>

fun emit_releases ::
  "string \<Rightarrow> tagdict \<Rightarrow> int \<Rightarrow> vinfo list \<Rightarrow> string set \<Rightarrow> release list \<Rightarrow> exn + release list"
where
  "emit_releases user_repo tags_list max_releases [] used_versions output = Inr output"
| "emit_releases user_repo tags_list max_releases (info # rest) used_versions output =
     (if info_version info \<in> used_versions
      then emit_releases user_repo tags_list max_releases rest used_versions output
      else
        (let tag = info_prefix info @ info_version info in
         case py_format url_pattern [user_repo, tag] of
           Inl e \<Rightarrow> Inl e
         | Inr u \<Rightarrow>
             (case dict_lookup tags_list (JStr tag) of
                None \<Rightarrow> Inl (KeyError tag)
              | Some d \<Rightarrow>
                  (let output' = output @ [\<lparr>url = u, version = info_version info, date = d\<rparr>];
                       used_versions' = insert (info_version info) used_versions
                   in if max_releases > 0 \<and> int (card used_versions') \<ge> max_releases
                      then Inr output'
                      else emit_releases user_repo tags_list max_releases rest
                             used_versions' output'))))"

text \<open>
  \<^verbatim>\<open>_user_repo_branch\<close>. \<^verbatim>\<open>branch_match.groups()\<close> is unpacked by both callers into
  two names, a \<^verbatim>\<open>ValueError\<close> if it had another length.
\<close>

definition user_repo_branch :: "string \<Rightarrow> exn + (string option \<times> string option)" where
  "user_repo_branch u =
     (case re_match branch_pat u of
        Some g \<Rightarrow>
          (case g of
             [user_repo, branch] \<Rightarrow> Inr (Some user_repo, Some branch)
           | _ \<Rightarrow> Inl ValueError)
      | None \<Rightarrow>
          (case re_match repo_pat u of
             Some g \<Rightarrow>
               (case group g 1 of
                  Inl e \<Rightarrow> Inl e
                | Inr user_repo \<Rightarrow> Inr (Some user_repo, None))
           | None \<Rightarrow> Inr (None, None)))"

text \<open>\<^verbatim>\<open>re.sub(r'[\-: ]', '.', timestamp)\<close>\<close>

definition sub_separators :: "string \<Rightarrow> string" where
  "sub_separators ts = map (\<lambda>c. if c \<in> set ''-: '' then CHR ''.'' else c) ts"

text \<open>\<^verbatim>\<open>repo_info['mainbranch'].get('name', 'master')\<close>\<close>

definition mainbranch_name :: "json \<Rightarrow> exn + json" where
  "mainbranch_name repo_json =
     (case getitem repo_json ''mainbranch'' of
        Inl e \<Rightarrow> Inl e
      | Inr mb \<Rightarrow> dict_get mb ''name'' (JStr ''master''))"

text \<open>The branch of \<^verbatim>\<open>download_info\<close> for a URL that is not a tags URL, from line 159 on.\<close>

definition branch_release ::
  "'s fetcher \<Rightarrow> string \<Rightarrow> json \<Rightarrow> 's \<Rightarrow> (exn + dl_result) \<times> 's"
where
  "branch_release fetch_json user_repo branch s =
     (case py_format ''/refs/branches/%s'' [py_str branch] of
        Inl e \<Rightarrow> (Inl e, s)
      | Inr suffix \<Rightarrow>
     (case make_api_url user_repo suffix of
        Inl e \<Rightarrow> (Inl e, s)
      | Inr branch_url \<Rightarrow>
     (case fetch_json (JStr branch_url) False s of
        (Inl e, s') \<Rightarrow> (Inl e, s')
      | (Inr branch_info, s') \<Rightarrow>
     (case getitem branch_info ''target'' of
        Inl e \<Rightarrow> (Inl e, s')
      | Inr target \<Rightarrow>
     (case getitem target ''date'' of
        Inl e \<Rightarrow> (Inl e, s')
      | Inr d \<Rightarrow>
     (case timestamp_of d of
        Inl e \<Rightarrow> (Inl e, s')
      | Inr timestamp \<Rightarrow>
     (case py_format url_pattern [user_repo, py_str branch] of
        Inl e \<Rightarrow> (Inl e, s')
      | Inr u \<Rightarrow>
          (Inr (DL_List [\<lparr>url = u, version = sub_separators timestamp, date = timestamp\<rparr>]),
           s'))))))))"

definition download_info ::
  "'s fetcher \<Rightarrow> settings \<Rightarrow> version_process \<Rightarrow> version_sort \<Rightarrow>
   string \<Rightarrow> string option \<Rightarrow> 's \<Rightarrow> ((exn + dl_result) \<times> 's) option"
where
  "download_info fetch_json settings version_process version_sort u tag_prefix s =
     (case re_match tags_pat u of
        Some g \<Rightarrow>
          (case group g 1 of
             Inl e \<Rightarrow> Some (Inl e, s)
           | Inr user_repo \<Rightarrow>
          (case make_api_url user_repo ''/refs/tags?pagelen=100'' of
             Inl e \<Rightarrow> Some (Inl e, s)
           | Inr tags_url \<Rightarrow>
          (case collect_tags fetch_json [] (JStr tags_url) s of
             None \<Rightarrow> None
           | Some (Inl e, s') \<Rightarrow> Some (Inl e, s')
           | Some (Inr tags_list, s') \<Rightarrow>
               (let tag_info = version_sort (version_process (dict_keys tags_list) tag_prefix) True
                in if tag_info = [] then Some (Inr DL_False, s')
                   else
                     (case emit_releases user_repo tags_list
                             (settings_get settings ''max_releases'' 0) tag_info {} [] of
                        Inl e \<Rightarrow> Some (Inl e, s')
                      | Inr output \<Rightarrow> Some (Inr (DL_List output), s'))))))
      | None \<Rightarrow>
          (case user_repo_branch u of
             Inl e \<Rightarrow> Some (Inl e, s)
           | Inr (user_repo, branch) \<Rightarrow>
               (case user_repo of
                  None \<Rightarrow> Some (Inr DL_None, s)
                | Some ur \<Rightarrow>
                    if ur = [] then Some (Inr DL_None, s)
                    else
                      (case branch of
                         Some b \<Rightarrow> Some (branch_release fetch_json ur (JStr b) s)
                       | None \<Rightarrow>
                           (case make_api_url ur [] of
                              Inl e \<Rightarrow> Some (Inl e, s)
                            | Inr api_url \<Rightarrow>
                           (case fetch_json (JStr api_url) False s of
                              (Inl e, s') \<Rightarrow> Some (Inl e, s')
                            | (Inr repo_json, s') \<Rightarrow>
                           (case mainbranch_name repo_json of
                              Inl e \<Rightarrow> Some (Inl e, s')
                            | Inr b \<Rightarrow> Some (branch_release fetch_json ur b s'))))))))"

subsection \<open>\<^verbatim>\<open>_readme_url\<close> and \<^verbatim>\<open>repo_info\<close>\<close>

definition readme_filenames :: "string list" where
  "readme_filenames = [''readme'', ''readme.txt'', ''readme.md'', ''readme.mkd'',
     ''readme.mdown'', ''readme.markdown'', ''readme.textile'', ''readme.creole'',
     ''readme.rst'']"

text \<open>
  \<^verbatim>\<open>for entry in root_dir_info['values']\<close>: \<open>Inr (Some u)\<close> is the \<^verbatim>\<open>return\<close> inside
  the loop, \<open>Inr None\<close> the end of the loop. Only a string has \<^verbatim>\<open>lower\<close>.
\<close>

fun find_readme :: "string \<Rightarrow> json \<Rightarrow> json list \<Rightarrow> exn + string option" where
  "find_readme user_repo branch [] = Inr None"
| "find_readme user_repo branch (entry # rest) =
     (case getitem entry ''path'' of
        Inl e \<Rightarrow> Inl e
      | Inr p \<Rightarrow>
          (case p of
             JStr path \<Rightarrow>
               if lower path \<in> set readme_filenames
               then (case py_format ''https://bitbucket.org/%s/raw/%s/%s''
                            [user_repo, py_str branch, path] of
                       Inl e \<Rightarrow> Inl e
                     | Inr u \<Rightarrow> Inr (Some u))
               else find_readme user_repo branch rest
           | _ \<Rightarrow> Inl AttributeError))"

text \<open>\<^verbatim>\<open>while listing_url:\<close>, the body of the \<^verbatim>\<open>try\<close>.\<close>

partial_function (option) readme_walk ::
  "'s fetcher \<Rightarrow> string \<Rightarrow> json \<Rightarrow> bool \<Rightarrow> json \<Rightarrow> 's \<Rightarrow> ((exn + string option) \<times> 's) option"
where
  "readme_walk fetch_json user_repo branch prefer_cached listing_url s =
     (if truthy listing_url then
        (case fetch_json listing_url prefer_cached s of
           (Inl e, s') \<Rightarrow> Some (Inl e, s')
         | (Inr root_dir_info, s') \<Rightarrow>
             (case getitem root_dir_info ''values'' of
                Inl e \<Rightarrow> Some (Inl e, s')
              | Inr vals \<Rightarrow>
                  (case py_iter vals of
                     Inl e \<Rightarrow> Some (Inl e, s')
                   | Inr entries \<Rightarrow>
                       (case find_readme user_repo branch entries of
                          Inl e \<Rightarrow> Some (Inl e, s')
                        | Inr (Some u) \<Rightarrow> Some (Inr (Some u), s')
                        | Inr None \<Rightarrow>
                            readme_walk fetch_json user_repo branch prefer_cached
                              (next_link root_dir_info) s'))))
      else Some (Inr None, s))"

declare readme_walk.simps [code]

text \<open>
  The handler \<^verbatim>\<open>except (DownloaderException) as e\<close>: the exception is raised again
  unless its message holds \<^verbatim>\<open>HTTP error 404\<close>; then \<^verbatim>\<open>return None\<close> follows.
\<close>

fun except_404 :: "exn \<Rightarrow> exn + string option" where
  "except_404 (DownloaderException m) =
     (if \<not> str_contains ''HTTP error 404'' m then Inl (DownloaderException m) else Inr None)"
| "except_404 e = Inl e"

definition readme_url ::
  "'s fetcher \<Rightarrow> string \<Rightarrow> json \<Rightarrow> bool \<Rightarrow> 's \<Rightarrow> ((exn + string option) \<times> 's) option"
where
  "readme_url fetch_json user_repo branch prefer_cached s =
     (case py_format ''/src/%s/?pagelen=100'' [py_str branch] of
        Inl e \<Rightarrow> Some (Inl e, s)
      | Inr suffix \<Rightarrow>
     (case make_api_url user_repo suffix of
        Inl e \<Rightarrow> Some (Inl e, s)
      | Inr listing_url \<Rightarrow>
     (case readme_walk fetch_json user_repo branch prefer_cached (JStr listing_url) s of
        None \<Rightarrow> None
      | Some (Inl e, s') \<Rightarrow> Some (except_404 e, s')
      | Some (Inr r, s') \<Rightarrow> Some (Inr r, s'))))"

record repo_meta =
  name :: json
  description :: json
  homepage :: json
  author :: json
  donate :: "string option"
  readme :: "string option"
  issues :: "string option"

text \<open>
  What \<^verbatim>\<open>repo_info\<close> returns: the dictionary, or \<^verbatim>\<open>user_repo\<close> itself when that
  is false, which is \<^verbatim>\<open>None\<close> or an empty string.
\<close>

datatype repo_result = RI_None | RI_Str string | RI_Dict repo_meta

text \<open>\<^verbatim>\<open>author\<close>, lines 212 to 214.\<close>

definition owner_author :: "json \<Rightarrow> exn + json" where
  "owner_author repo_json =
     (case getitem repo_json ''owner'' of
        Inl e \<Rightarrow> Inl e
      | Inr owner \<Rightarrow>
          (case dict_get owner ''nickname'' JNull of
             Inl e \<Rightarrow> Inl e
           | Inr a \<Rightarrow> if a = JNull then dict_get owner ''username'' JNull else Inr a))"

text \<open>\<^verbatim>\<open>issues_url\<close>, line 210.\<close>

definition issues_url :: "string \<Rightarrow> exn + string" where
  "issues_url user_repo = py_format ''https://bitbucket.org/%s/issues'' [user_repo]"

text \<open>The dictionary of line 216, its values evaluated in the order they are written.\<close>

definition repo_dict ::
  "'s fetcher \<Rightarrow> string \<Rightarrow> string \<Rightarrow> json \<Rightarrow> json \<Rightarrow> string \<Rightarrow> json \<Rightarrow> 's \<Rightarrow>
   ((exn + repo_result) \<times> 's) option"
where
  "repo_dict fetch_json u user_repo branch repo_json issues_page a s =
     (case getitem repo_json ''name'' of
        Inl e \<Rightarrow> Some (Inl e, s)
      | Inr n \<Rightarrow>
     (case getitem repo_json ''description'' of
        Inl e \<Rightarrow> Some (Inl e, s)
      | Inr d \<Rightarrow>
     (case getitem repo_json ''website'' of
        Inl e \<Rightarrow> Some (Inl e, s)
      | Inr w \<Rightarrow>
     (case readme_url fetch_json user_repo branch False s of
        None \<Rightarrow> None
      | Some (Inl e, s') \<Rightarrow> Some (Inl e, s')
      | Some (Inr r, s') \<Rightarrow>
     (case getitem repo_json ''has_issues'' of
        Inl e \<Rightarrow> Some (Inl e, s')
      | Inr h \<Rightarrow>
          Some (Inr (RI_Dict
            \<lparr>name = n,
             description = py_or d (JStr ''No description provided''),
             homepage = py_or w (JStr u),
             author = a,
             donate = None,
             readme = r,
             issues = (if truthy h then Some issues_page else None)\<rparr>), s'))))))"

definition repo_info :: "'s fetcher \<Rightarrow> string \<Rightarrow> 's \<Rightarrow> ((exn + repo_result) \<times> 's) option" where
  "repo_info fetch_json u s =
     (case user_repo_branch u of
        Inl e \<Rightarrow> Some (Inl e, s)
      | Inr (user_repo, branch) \<Rightarrow>
          (case user_repo of
             None \<Rightarrow> Some (Inr RI_None, s)
           | Some ur \<Rightarrow>
               if ur = [] then Some (Inr (RI_Str ur), s)
               else
                 (case make_api_url ur [] of
                    Inl e \<Rightarrow> Some (Inl e, s)
                  | Inr api_url \<Rightarrow>
                 (case fetch_json (JStr api_url) False s of
                    (Inl e, s') \<Rightarrow> Some (Inl e, s')
                  | (Inr repo_json, s') \<Rightarrow>
                 (case (case branch of
                          None \<Rightarrow> mainbranch_name repo_json
                        | Some b \<Rightarrow> Inr (JStr b)) of
                    Inl e \<Rightarrow> Some (Inl e, s')
                  | Inr branch' \<Rightarrow>
                 (case issues_url ur of
                    Inl e \<Rightarrow> Some (Inl e, s')
                  | Inr issues_page \<Rightarrow>
                 (case owner_author repo_json of
                    Inl e \<Rightarrow> Some (Inl e, s')
                  | Inr a \<Rightarrow>
                      repo_dict fetch_json u ur branch' repo_json issues_page a s')))))))"

subsection \<open>The pages of a walk\<close>

text \<open>
  \<open>chain f c u s pages\<close>: asked for \<open>u\<close> in state \<open>s\<close>, and then for the
  \<^verbatim>\<open>next\<close> of each answer, the server \<open>f\<close> answers with the documents \<open>pages\<close>, one
  after the other; the result is the \<^verbatim>\<open>next\<close> of the last one (\<open>JNull\<close> if it has
  none) and the state of the server then.
\<close>

fun chain :: "'s fetcher \<Rightarrow> bool \<Rightarrow> json \<Rightarrow> 's \<Rightarrow> json list \<Rightarrow> (json \<times> 's) option" where
  "chain f c u s [] = Some (u, s)"
| "chain f c u s (p # ps) =
     (if truthy u \<and> fst (f u c s) = Inr p
      then chain f c (next_link p) (snd (f u c s)) ps
      else None)"

text \<open>The items that a loop over \<^verbatim>\<open>page['values']\<close> visits.\<close>

definition page_items :: "json \<Rightarrow> exn + json list" where
  "page_items p = (case getitem p ''values'' of Inl e \<Rightarrow> Inl e | Inr v \<Rightarrow> py_iter v)"

text \<open>An entry of a listing whose \<^verbatim>\<open>path\<close> is a string that names no readme.\<close>

definition not_readme :: "json \<Rightarrow> bool" where
  "not_readme entry =
     (case getitem entry ''path'' of
        Inr (JStr path) \<Rightarrow> lower path \<notin> set readme_filenames
      | _ \<Rightarrow> False)"

text \<open>The dictionary of tags after the loop over \<open>pages\<close>, started with \<open>tags_list\<close>.\<close>

fun merge_pages :: "tagdict \<Rightarrow> json list \<Rightarrow> exn + tagdict" where
  "merge_pages tags_list [] = Inr tags_list"
| "merge_pages tags_list (p # ps) =
     (case page_items p of
        Inl e \<Rightarrow> Inl e
      | Inr tags \<Rightarrow>
          (case merge_tags tags_list tags of
             Inl e \<Rightarrow> Inl e
           | Inr tags_list' \<Rightarrow> merge_pages tags_list' ps))"

subsection \<open>What the spec says of the releases\<close>

text \<open>
  The entries that are the first of their version, in the order of the list: an entry
  is dropped when its version is in \<open>seen\<close> or stands earlier in the list.
\<close>

fun first_seen :: "vinfo list \<Rightarrow> string set \<Rightarrow> vinfo list" where
  "first_seen [] seen = []"
| "first_seen (i # is) seen =
     (if info_version i \<in> seen then first_seen is seen
      else i # first_seen is (insert (info_version i) seen))"

text \<open>At most \<open>max_releases\<close> entries when that is positive, all of them otherwise.\<close>

definition capped :: "int \<Rightarrow> 'a list \<Rightarrow> 'a list" where
  "capped max_releases xs = (if 0 < max_releases then take (nat max_releases) xs else xs)"

text \<open>
  The release \<open>r\<close> is the one of the entry \<open>i\<close>: its version, the zip of the tag
  \<^verbatim>\<open>prefix + version\<close>, and the timestamp of that tag in the dictionary.
\<close>

definition release_of :: "string \<Rightarrow> tagdict \<Rightarrow> vinfo \<Rightarrow> release \<Rightarrow> bool" where
  "release_of user_repo tags_list i r =
     (version r = info_version i
      \<and> url r = ''https://bitbucket.org/'' @ user_repo @ ''/get/''
                  @ info_prefix i @ info_version i @ ''.zip''
      \<and> dict_lookup tags_list (JStr (info_prefix i @ info_version i)) = Some (date r))"

subsection \<open>An example server\<close>

text \<open>
  A server without state that knows one repository, \<^verbatim>\<open>a/b\<close>, with two pages of
  tags and two pages of files, a repository \<^verbatim>\<open>a/e\<close> without tags, and that fails for
  everything else.
\<close>

text \<open>The two pages of tags of the repository \<^verbatim>\<open>a/b\<close>.\<close>

definition demo_tags1 :: json where
  "demo_tags1 = JObj [(''values'', JArr
       [JObj [(''name'', JStr ''v1.0''),
              (''target'', JObj [(''date'', JStr ''2020-01-01T10:00:00+00:00'')])],
        JObj [(''name'', JStr ''v2.0''),
              (''target'', JObj [(''date'', JStr ''2020-02-02T10:00:00+00:00'')])]]),
     (''next'', JStr ''https://api.bitbucket.org/tags2'')]"

definition demo_tags2 :: json where
  "demo_tags2 = JObj [(''values'', JArr
       [JObj [(''name'', JStr ''1.5''),
              (''target'', JObj [(''date'', JStr ''2020-01-05T10:00:00+00:00'')])],
        JObj [(''name'', JStr ''2.0''),
              (''target'', JObj [(''date'', JStr ''2020-02-03T10:00:00+00:00'')])]])]"

definition demo_server :: "unit fetcher" where
  "demo_server u c s =
     (if u = JStr ''https://api.bitbucket.org/2.0/repositories/a/b'' then
        (Inr (JObj [(''name'', JStr ''b''), (''description'', JStr []), (''website'', JNull),
                    (''has_issues'', JBool True),
                    (''owner'', JObj [(''username'', JStr ''al'')]),
                    (''mainbranch'', JObj [(''type'', JStr ''branch'')])]), s)
      else if u = JStr ''https://api.bitbucket.org/2.0/repositories/a/b/refs/branches/master''
      then (Inr (JObj [(''target'', JObj [(''date'', JStr ''2021-05-06T12:00:00+00:00'')])]), s)
      else if u = JStr ''https://api.bitbucket.org/2.0/repositories/a/b/src/master/?pagelen=100''
      then (Inr (JObj [(''values'', JArr [JObj [(''path'', JStr ''setup.py'')],
                                          JObj [(''path'', JStr ''docs'')]]),
                       (''next'', JStr ''https://api.bitbucket.org/page2'')]), s)
      else if u = JStr ''https://api.bitbucket.org/page2''
      then (Inr (JObj [(''values'', JArr [JObj [(''path'', JStr ''README.MD'')],
                                          JObj [(''path'', JStr ''readme.txt'')]])]), s)
      else if u = JStr ''https://api.bitbucket.org/2.0/repositories/a/b/refs/tags?pagelen=100''
      then (Inr demo_tags1, s)
      else if u = JStr ''https://api.bitbucket.org/tags2''
      then (Inr demo_tags2, s)
      else if u = JStr ''https://api.bitbucket.org/2.0/repositories/a/e/refs/tags?pagelen=100''
      then (Inr (JObj [(''values'', JArr [])]), s)
      else if u = JStr ''https://api.bitbucket.org/2.0/repositories/a/e/src/master/?pagelen=100''
      then (Inr (JObj [(''values'', JArr [JObj [(''path'', JStr ''main.py'')]])]), s)
      else if u = JStr ''https://api.bitbucket.org/2.0/repositories/a/x/src/dev/?pagelen=100''
      then (Inl (DownloaderException ''HTTP error 500 downloading''), s)
      else (Inl (DownloaderException ''HTTP error 404 downloading''), s))"

text \<open>
  A server whose repository info has no key \<^verbatim>\<open>description\<close>, whatever it is asked.
\<close>

definition bare_server :: "unit fetcher" where
  "bare_server u c s =
     (Inr (JObj [(''name'', JStr ''b''), (''website'', JNull), (''has_issues'', JBool False),
                 (''owner'', JObj [(''nickname'', JStr ''al'')]),
                 (''mainbranch'', JObj [(''name'', JStr ''master'')])]), s)"

subsection \<open>Example collaborators\<close>

text \<open>
  A \<^verbatim>\<open>version_process\<close> that accepts the names made of digits and periods, after the
  required prefix or, when none is required, after an optional \<^verbatim>\<open>v\<close>; and a
  \<^verbatim>\<open>version_sort\<close> that sorts by insertion, comparing the versions character by
  character, the entries of the same version staying in their order.
\<close>

definition demo_split :: "string \<Rightarrow> string option \<Rightarrow> (string \<times> string) option" where
  "demo_split t tag_prefix =
     (case tag_prefix of
        Some fp \<Rightarrow> if startswith t fp then Some (fp, drop (length fp) t) else None
      | None \<Rightarrow> if startswith t ''v'' then Some (''v'', drop 1 t) else Some ([], t))"

definition demo_version_process :: version_process where
  "demo_version_process names tag_prefix =
     concat (map (\<lambda>k. case k of
                         JStr t \<Rightarrow>
                           (case demo_split t tag_prefix of
                              None \<Rightarrow> []
                            | Some (p, v) \<Rightarrow>
                                if v \<noteq> [] \<and> list_all (\<lambda>x. x \<in> set ''.0123456789'') v
                                then [\<lparr>info_version = v, info_prefix = p\<rparr>]
                                else [])
                       | _ \<Rightarrow> []) names)"

definition digit_pos :: "char \<Rightarrow> nat" where
  "digit_pos c = length (takeWhile (\<lambda>x. x \<noteq> c) ''.0123456789'')"

fun lex_le :: "nat list \<Rightarrow> nat list \<Rightarrow> bool" where
  "lex_le [] ys = True"
| "lex_le (x # xs) [] = False"
| "lex_le (x # xs) (y # ys) = (x < y \<or> (x = y \<and> lex_le xs ys))"

definition demo_ge :: "string \<Rightarrow> string \<Rightarrow> bool" where
  "demo_ge a b = lex_le (map digit_pos b) (map digit_pos a)"

fun demo_insert :: "vinfo \<Rightarrow> vinfo list \<Rightarrow> vinfo list" where
  "demo_insert x [] = [x]"
| "demo_insert x (y # ys) =
     (if demo_ge (info_version x) (info_version y) then x # y # ys else y # demo_insert x ys)"

definition demo_version_sort :: version_sort where
  "demo_version_sort xs r =
     (if r then foldr demo_insert xs [] else rev (foldr demo_insert xs []))"

text \<open>The dictionary that the two pages of tags give, and its entries sorted.\<close>

definition demo_tagdict :: tagdict where
  "demo_tagdict = [(JStr ''v1.0'', ''2020-01-01 10:00:00''),
                   (JStr ''v2.0'', ''2020-02-02 10:00:00''),
                   (JStr ''1.5'', ''2020-01-05 10:00:00''),
                   (JStr ''2.0'', ''2020-02-03 10:00:00'')]"

definition demo_tag_info :: "vinfo list" where
  "demo_tag_info = [\<lparr>info_version = ''2.0'', info_prefix = ''v''\<rparr>,
                    \<lparr>info_version = ''2.0'', info_prefix = []\<rparr>,
                    \<lparr>info_version = ''1.5'', info_prefix = []\<rparr>,
                    \<lparr>info_version = ''1.0'', info_prefix = ''v''\<rparr>]"

definition demo_releases :: "release list" where
  "demo_releases = [\<lparr>url = ''https://bitbucket.org/a/b/get/v2.0.zip'', version = ''2.0'',
                       date = ''2020-02-02 10:00:00''\<rparr>,
                    \<lparr>url = ''https://bitbucket.org/a/b/get/1.5.zip'', version = ''1.5'',
                       date = ''2020-01-05 10:00:00''\<rparr>,
                    \<lparr>url = ''https://bitbucket.org/a/b/get/v1.0.zip'', version = ''1.0'',
                       date = ''2020-01-01 10:00:00''\<rparr>]"

section \<open>Properties\<close>

subsection \<open>The templates\<close>

lemma make_api_url_eq:
  "make_api_url user_repo sfx =
     Inr (''https://api.bitbucket.org/2.0/repositories/'' @ user_repo @ sfx)"
  by (simp add: make_api_url_def)

lemma zip_url_eq:
  "py_format url_pattern [user_repo, t] =
     Inr (''https://bitbucket.org/'' @ user_repo @ ''/get/'' @ t @ ''.zip'')"
  by (simp add: url_pattern_def)

lemma issues_url_eq:
  "issues_url user_repo = Inr (''https://bitbucket.org/'' @ user_repo @ ''/issues'')"
  by (simp add: issues_url_def)

lemma raw_url_eq:
  "py_format ''https://bitbucket.org/%s/raw/%s/%s'' [user_repo, b, path] =
     Inr (''https://bitbucket.org/'' @ user_repo @ ''/raw/'' @ b @ ''/'' @ path)"
  by simp

lemma tags_url_eq:
  "py_format ''https://bitbucket.org/%s#tags'' [g1] =
     Inr (''https://bitbucket.org/'' @ g1 @ ''#tags'')"
  by simp

lemma branch_url_eq:
  "py_format ''https://bitbucket.org/%s/src/%s'' [g1, b] =
     Inr (''https://bitbucket.org/'' @ g1 @ ''/src/'' @ b)"
  by simp

lemma branches_suffix_eq:
  "py_format ''/refs/branches/%s'' [b] = Inr (''/refs/branches/'' @ b)"
  by simp

lemma listing_suffix_eq:
  "py_format ''/src/%s/?pagelen=100'' [b] = Inr (''/src/'' @ b @ ''/?pagelen=100'')"
  by simp

subsection \<open>The patterns\<close>

lemma push_shape [simp]:
  "fst (push x st) = fst st" "(snd (push x st) = None) = (snd st = None)"
  by (cases st; cases "snd st"; simp)+

text \<open>A match yields as many groups as the pattern has.\<close>

lemma bt_ngroups:
  "bt p st s = Some g \<Longrightarrow> length g = length (fst st) + ngroups p (snd st \<noteq> None)"
proof (induction p st s arbitrary: g rule: bt.induct)
  case (8 rs st s)
  then show ?case by (cases st) auto
next
  case (9 rs st s)
  then show ?case by (cases st; cases "snd st") auto
qed (auto split: if_splits option.splits)

lemma ngroups_pats:
  "ngroups repo_pat False = 1" "ngroups tags_pat False = 1" "ngroups branch_pat False = 2"
  by (simp_all add: repo_pat_def tags_pat_def branch_pat_def host_pat_def lit_def)

lemma repo_match_groups: "re_match repo_pat u = Some g \<Longrightarrow> \<exists>user_repo. g = [user_repo]"
  using bt_ngroups [of repo_pat "([], None)" u g]
  by (cases g) (auto simp: re_match_def ngroups_pats)

lemma tags_match_groups: "re_match tags_pat u = Some g \<Longrightarrow> \<exists>user_repo. g = [user_repo]"
  using bt_ngroups [of tags_pat "([], None)" u g]
  by (cases g) (auto simp: re_match_def ngroups_pats)

lemma branch_match_groups:
  "re_match branch_pat u = Some g \<Longrightarrow> \<exists>user_repo branch. g = [user_repo, branch]"
  using bt_ngroups [of branch_pat "([], None)" u g]
  by (cases g; cases "tl g") (auto simp: re_match_def ngroups_pats)

text \<open>No group of a match of the three patterns is empty.\<close>

lemma push_not_empty [simp]: "snd (push x st) \<noteq> Some []"
  by (cases st; cases "snd st") auto

lemma ne_groups_mono: "ne_groups p b \<Longrightarrow> ne_groups p True"
  by (induction p b rule: ne_groups.induct) auto

lemma bt_ne_groups:
  "bt p st s = Some g \<Longrightarrow> ne_groups p b \<Longrightarrow> (b \<longrightarrow> snd st \<noteq> Some []) \<Longrightarrow>
   [] \<notin> set (fst st) \<Longrightarrow> [] \<notin> set g"
proof (induction p st s arbitrary: g b rule: bt.induct)
  case (1 st s)
  then show ?case by simp
next
  case (3 c rs st x xs)
  from "3.prems" "3.IH" [of g True] show ?case by (simp split: if_splits)
next
  case (5 c rs st x xs)
  show ?case
  proof (cases "accepts c x \<and> bt rs (push x st) xs \<noteq> None")
    case True
    with "5.prems" "5.IH"(1) [of g True] ne_groups_mono [of rs b] show ?thesis
      by (auto split: option.splits)
  next
    case False
    with "5.prems" "5.IH"(2,3) [of g b] show ?thesis by (auto split: option.splits if_splits)
  qed
next
  case (7 c rs st x xs)
  from "7.prems" "7.IH"(1) [of g True] "7.IH"(2) [of g True] show ?case
    by (auto split: if_splits option.splits)
next
  case (8 rs st s)
  from "8.prems" "8.IH" [of g False] show ?case by (cases st) auto
next
  case (9 rs st s)
  from "9.prems" "9.IH" [of g True] show ?case by (cases st; cases "snd st") auto
next
  case (10 rs st s)
  from "10.prems" "10.IH" [of g b] show ?case by (auto split: if_splits)
qed auto

lemma ne_groups_pats:
  "ne_groups repo_pat True" "ne_groups tags_pat True" "ne_groups branch_pat True"
  by (simp_all add: repo_pat_def tags_pat_def branch_pat_def host_pat_def lit_def)

lemma match_groups_nonempty:
  "re_match repo_pat u = Some g \<Longrightarrow> [] \<notin> set g"
  "re_match tags_pat u = Some g \<Longrightarrow> [] \<notin> set g"
  "re_match branch_pat u = Some g \<Longrightarrow> [] \<notin> set g"
  using bt_ne_groups [of _ "([], None)" u g True] ne_groups_pats
  by (auto simp: re_match_def)

lemma user_repo_branch_cases:
  "user_repo_branch u = Inr (None, None) \<or>
   (\<exists>user_repo branch. user_repo_branch u = Inr (Some user_repo, branch) \<and> user_repo \<noteq> [])"
proof (cases "re_match branch_pat u")
  case (Some g)
  with branch_match_groups [OF Some] match_groups_nonempty(3) [OF Some] show ?thesis
    by (auto simp: user_repo_branch_def)
next
  case None
  show ?thesis
  proof (cases "re_match repo_pat u")
    case (Some g)
    with None repo_match_groups [OF Some] match_groups_nonempty(1) [OF Some] show ?thesis
      by (auto simp: user_repo_branch_def group_def)
  next
    case None': None
    with None show ?thesis by (simp add: user_repo_branch_def)
  qed
qed

lemma user_repo_nonempty:
  "user_repo_branch u = Inr (Some user_repo, branch) \<Longrightarrow> user_repo \<noteq> []"
  using user_repo_branch_cases [of u] by auto

text \<open>
  A greedy \<^verbatim>\<open>+\<close> takes the whole run \<open>u\<close> of characters of its class when the rest of
  the pattern matches what follows the run.
\<close>

lemma plus_greedy:
  "u \<noteq> [] \<Longrightarrow> \<forall>x\<in>set u. accepts c x \<Longrightarrow> t = [] \<or> \<not> accepts c (hd t) \<Longrightarrow>
   bt rs (fold push u st) t = Some g \<Longrightarrow> bt (Plus c # rs) st (u @ t) = Some g"
proof (induction u arbitrary: st)
  case Nil
  then show ?case by simp
next
  case (Cons x u)
  show ?case
  proof (cases u)
    case Nil
    with Cons.prems show ?thesis by (cases t) auto
  next
    case (Cons y u')
    with Cons.prems Cons.IH [of "push x st"] show ?thesis by simp
  qed
qed

lemma host_pat_https:
  "bt (host_pat @ rs) (done, None) (''https://bitbucket.org/'' @ t) = bt rs (done, None) t"
  by (cases "bt rs (done, None) t") (simp_all add: host_pat_def lit_def)

lemma fold_push_open: "fold push u (done, Some w) = (done, Some (w @ u))"
  by (induction u arbitrary: w) simp_all

lemma repo_pat_match:
  assumes "owner \<noteq> []" "repo \<noteq> []" "CHR ''/'' \<notin> set owner" "CHR ''/'' \<notin> set repo"
  shows "re_match repo_pat (''https://bitbucket.org/'' @ owner @ ''/'' @ repo) =
           Some [owner @ ''/'' @ repo]"
proof -
  have tail: "bt [Plus (NotIn ''/''), Close, Opt (Ch (CHR ''/'')), Eol]
                ([], Some (owner @ ''/'')) (repo @ []) = Some [owner @ ''/'' @ repo]"
    using assms by (intro plus_greedy) (auto simp: fold_push_open)
  have "bt [Plus (NotIn ''/''), One (Ch (CHR ''/'')), Plus (NotIn ''/''), Close,
            Opt (Ch (CHR ''/'')), Eol] ([], Some []) (owner @ (CHR ''/'' # repo)) =
          Some [owner @ ''/'' @ repo]"
    using assms tail by (intro plus_greedy) (auto simp: fold_push_open)
  then have "bt [Open, Plus (NotIn ''/''), One (Ch (CHR ''/'')), Plus (NotIn ''/''), Close,
          Opt (Ch (CHR ''/'')), Eol] ([], None) (owner @ ''/'' @ repo) =
          Some [owner @ ''/'' @ repo]"
    by simp
  then show ?thesis
    unfolding re_match_def repo_pat_def by (simp only: host_pat_https)
qed

subsection \<open>The host of \<^verbatim>\<open>make_repo_url\<close>\<close>

lemma find_readme_host:
  "find_readme user_repo branch entries = Inr (Some r) \<Longrightarrow>
   startswith r ''https://bitbucket.org/''"
  by (induction entries)
     (auto simp: startswith_def split: sum.splits json.splits if_splits)

text \<open>
  C10. \<^verbatim>\<open>make_repo_url\<close> returns \<^verbatim>\<open>https://bitbucket.com/\<close>, the quoted owner, a
  slash and the quoted repository name: its host is \<^verbatim>\<open>bitbucket.com\<close>. Every
  other URL that the client builds starts with \<^verbatim>\<open>https://bitbucket.org/\<close> or with
  \<^verbatim>\<open>https://api.bitbucket.org/\<close>: the tags and branch pages, the API endpoints,
  the zip download, the issues page and the raw readme.
\<close>

theorem make_repo_url_host:
  "make_repo_url owner_name repo_name =
     Inr (''https://bitbucket.com/'' @ quote owner_name @ ''/'' @ quote repo_name)
   \<and> (\<forall>r. make_tags_url u = Inr (Some r) \<longrightarrow> startswith r ''https://bitbucket.org/'')
   \<and> (\<forall>r. make_branch_url u b = Inr (Some r) \<longrightarrow> startswith r ''https://bitbucket.org/'')
   \<and> (\<exists>r. make_api_url user_repo sfx = Inr r \<and> startswith r ''https://api.bitbucket.org/'')
   \<and> (\<exists>r. py_format url_pattern [user_repo, t] = Inr r
          \<and> startswith r ''https://bitbucket.org/'')
   \<and> (\<exists>r. issues_url user_repo = Inr r \<and> startswith r ''https://bitbucket.org/'')
   \<and> (\<forall>r. find_readme user_repo branch entries = Inr (Some r)
          \<longrightarrow> startswith r ''https://bitbucket.org/'')"
proof -
  have 1: "make_repo_url owner_name repo_name =
     Inr (''https://bitbucket.com/'' @ quote owner_name @ ''/'' @ quote repo_name)"
    by (simp add: make_repo_url_def)
  have 2: "\<forall>r. make_tags_url u = Inr (Some r) \<longrightarrow> startswith r ''https://bitbucket.org/''"
    by (auto simp: make_tags_url_def startswith_def split: option.splits sum.splits)
  have 3: "\<forall>r. make_branch_url u b = Inr (Some r) \<longrightarrow> startswith r ''https://bitbucket.org/''"
    by (auto simp: make_branch_url_def startswith_def split: option.splits sum.splits)
  have 4: "\<exists>r. make_api_url user_repo sfx = Inr r \<and> startswith r ''https://api.bitbucket.org/''"
    by (simp add: make_api_url_eq startswith_def)
  have 5: "\<exists>r. py_format url_pattern [user_repo, t] = Inr r
             \<and> startswith r ''https://bitbucket.org/''"
    by (simp add: zip_url_eq startswith_def)
  have 6: "\<exists>r. issues_url user_repo = Inr r \<and> startswith r ''https://bitbucket.org/''"
    by (simp add: issues_url_eq startswith_def)
  have 7: "\<forall>r. find_readme user_repo branch entries = Inr (Some r)
             \<longrightarrow> startswith r ''https://bitbucket.org/''"
    by (simp add: find_readme_host)
  from 1 2 3 4 5 6 7 show ?thesis by blast
qed

theorem make_repo_url_host_witness:
  "make_repo_url ''a b'' ''c'' = Inr ''https://bitbucket.com/a%20b/c''
   \<and> make_tags_url ''https://bitbucket.org/a/b'' = Inr (Some ''https://bitbucket.org/a/b#tags'')
   \<and> startswith ''https://bitbucket.org/a/b#tags'' ''https://bitbucket.org/''
   \<and> make_branch_url ''https://bitbucket.org/a/b'' ''dev'' =
        Inr (Some ''https://bitbucket.org/a/b/src/dev'')
   \<and> startswith ''https://bitbucket.org/a/b/src/dev'' ''https://bitbucket.org/''
   \<and> find_readme ''a/b'' (JStr ''dev'') [JObj [(''path'', JStr ''Readme.md'')]] =
        Inr (Some ''https://bitbucket.org/a/b/raw/dev/Readme.md'')
   \<and> startswith ''https://bitbucket.org/a/b/raw/dev/Readme.md'' ''https://bitbucket.org/''"
proof -
  have q: "quote ''a b'' = ''a%20b''" "quote ''c'' = ''c''"
    by (simp_all add: quote_def quote_char_def always_safe_def quote_byte_def utf8_def
          hex_upper_def)
  have t: "make_tags_url ''https://bitbucket.org/a/b'' =
             Inr (Some ''https://bitbucket.org/a/b#tags'')"
    by (simp add: make_tags_url_def re_match_def repo_pat_def host_pat_def lit_def group_def)
  have b: "make_branch_url ''https://bitbucket.org/a/b'' ''dev'' =
             Inr (Some ''https://bitbucket.org/a/b/src/dev'')"
    by (simp add: make_branch_url_def re_match_def repo_pat_def host_pat_def lit_def group_def
          quote_def quote_char_def always_safe_def)
  have f: "find_readme ''a/b'' (JStr ''dev'') [JObj [(''path'', JStr ''Readme.md'')]] =
             Inr (Some ''https://bitbucket.org/a/b/raw/dev/Readme.md'')"
    by (simp add: lower_def lower_char_def readme_filenames_def)
  show ?thesis
    using make_repo_url_host [of "''a b''" "''c''" "''https://bitbucket.org/a/b''" "''dev''"
        "''a/b''" "[]" "[]" "JStr ''dev''" "[JObj [(''path'', JStr ''Readme.md'')]]"]
    unfolding q t b f by simp
qed

subsection \<open>A URL of another service\<close>



subsection \<open>Which URLs are percent-encoded\<close>

lemma plus_then_sep:
  "u \<noteq> [] \<Longrightarrow> \<forall>x\<in>set u. accepts c x \<Longrightarrow> \<not> accepts c d \<Longrightarrow>
   bt (Plus c # One (Ch d) # rs) st (u @ d # t) = bt rs (push d (fold push u st)) t"
proof (induction u arbitrary: st)
  case Nil
  then show ?case by simp
next
  case (Cons x u)
  show ?case
  proof (cases u)
    case Nil
    with Cons.prems show ?thesis by simp
  next
    case (Cons y u')
    with Cons.prems Cons.IH [of "push x st"] show ?thesis
      by (cases "bt rs (push d (fold push u (push x st))) t") auto
  qed
qed

lemma plus_close_sep_fails:
  "\<forall>x\<in>set u. accepts c x \<Longrightarrow> \<not> accepts c d \<Longrightarrow>
   bt (Plus c # Close # One (Ch d) # rs) st u = None"
proof (induction u arbitrary: st)
  case Nil
  then show ?case by simp
next
  case (Cons x u)
  then show ?case by (cases u) auto
qed

lemma branch_pat_no_match:
  assumes "owner \<noteq> []" "CHR ''/'' \<notin> set owner" "CHR ''/'' \<notin> set repo"
  shows "re_match branch_pat (''https://bitbucket.org/'' @ owner @ ''/'' @ repo) = None"
proof -
  have "bt (Plus (NotIn ''/'') # One (Ch (CHR ''/'')) # Plus (NotIn ''/'') # Close #
            One (Ch (CHR ''/'')) # lit ''src/'' @ [Open, Plus (NotIn ''/''), Close, Opt (Ch (CHR ''/'')), Eol])
          ([], Some []) (owner @ CHR ''/'' # repo) = None"
    using assms by (subst plus_then_sep) (auto intro!: plus_close_sep_fails)
  then have "bt ([Open, Plus (NotIn ''/''), One (Ch (CHR ''/'')), Plus (NotIn ''/''), Close] @
     lit ''/src/'' @ [Open, Plus (NotIn ''/''), Close, Opt (Ch (CHR ''/'')), Eol]) ([], None) (owner @ ''/'' @ repo) = None"
    by (simp add: lit_def)
  then show ?thesis
    unfolding re_match_def branch_pat_def by (simp only: host_pat_https)
qed

lemma user_repo_branch_repo:
  assumes "owner \<noteq> []" "repo \<noteq> []" "CHR ''/'' \<notin> set owner" "CHR ''/'' \<notin> set repo"
  shows "user_repo_branch (''https://bitbucket.org/'' @ owner @ ''/'' @ repo) =
           Inr (Some (owner @ ''/'' @ repo), None)"
  unfolding user_repo_branch_def
  by (simp only: branch_pat_no_match [OF assms(1,3,4)] repo_pat_match [OF assms]) (simp add: group_def)

lemma quote_ab: "quote ''a b'' = ''a%20b''" "quote ''c'' = ''c''" "quote ''x y'' = ''x%20y''"
    by (simp_all add: quote_def quote_char_def always_safe_def quote_byte_def utf8_def
          hex_upper_def)

text \<open>
  C9, as the code has it. \<^verbatim>\<open>make_repo_url\<close> percent-encodes the owner and the
  repository name that it is given, and \<^verbatim>\<open>make_branch_url\<close> percent-encodes the
  branch. The owner and repository of the tags page, of the branch page and of the
  issues page are the text that the pattern matched in the input URL, copied as it is,
  the way the API URLs take it: for every owner and repository name that are not empty
  and hold no slash.
\<close>

theorem web_urls_copy_identity:
  assumes "owner \<noteq> []" and "repo \<noteq> []"
    and "CHR ''/'' \<notin> set owner" and "CHR ''/'' \<notin> set repo"
  shows "make_repo_url owner repo =
           Inr (''https://bitbucket.com/'' @ quote owner @ ''/'' @ quote repo)
       \<and> make_tags_url (''https://bitbucket.org/'' @ owner @ ''/'' @ repo) =
           Inr (Some (''https://bitbucket.org/'' @ owner @ ''/'' @ repo @ ''#tags''))
       \<and> make_branch_url (''https://bitbucket.org/'' @ owner @ ''/'' @ repo) branch =
           Inr (Some (''https://bitbucket.org/'' @ owner @ ''/'' @ repo @ ''/src/'' @ quote branch))
       \<and> user_repo_branch (''https://bitbucket.org/'' @ owner @ ''/'' @ repo) =
           Inr (Some (owner @ ''/'' @ repo), None)
       \<and> issues_url (owner @ ''/'' @ repo) =
           Inr (''https://bitbucket.org/'' @ owner @ ''/'' @ repo @ ''/issues'')
       \<and> make_api_url (owner @ ''/'' @ repo) sfx =
           Inr (''https://api.bitbucket.org/2.0/repositories/'' @ owner @ ''/'' @ repo @ sfx)"
proof -
  have 1: "make_repo_url owner repo =
           Inr (''https://bitbucket.com/'' @ quote owner @ ''/'' @ quote repo)"
    by (simp add: make_repo_url_def)
  have 2: "make_tags_url (''https://bitbucket.org/'' @ owner @ ''/'' @ repo) =
           Inr (Some (''https://bitbucket.org/'' @ owner @ ''/'' @ repo @ ''#tags''))"
    unfolding make_tags_url_def by (simp only: repo_pat_match [OF assms]) (simp add: group_def)
  have 3: "make_branch_url (''https://bitbucket.org/'' @ owner @ ''/'' @ repo) branch =
           Inr (Some (''https://bitbucket.org/'' @ owner @ ''/'' @ repo @ ''/src/'' @ quote branch))"
    unfolding make_branch_url_def by (simp only: repo_pat_match [OF assms]) (simp add: group_def)
  note 4 = user_repo_branch_repo [OF assms]
  have 5: "issues_url (owner @ ''/'' @ repo) =
           Inr (''https://bitbucket.org/'' @ owner @ ''/'' @ repo @ ''/issues'')"
    by (simp add: issues_url_eq)
  have 6: "make_api_url (owner @ ''/'' @ repo) sfx =
           Inr (''https://api.bitbucket.org/2.0/repositories/'' @ owner @ ''/'' @ repo @ sfx)"
    by (simp add: make_api_url_eq)
  from 1 2 3 4 5 6 show ?thesis by blast
qed

theorem web_urls_copy_identity_witness:
  "''a b'' \<noteq> [] \<and> ''c'' \<noteq> [] \<and> CHR ''/'' \<notin> set ''a b'' \<and> CHR ''/'' \<notin> set ''c''
   \<and> make_repo_url ''a b'' ''c'' = Inr ''https://bitbucket.com/a%20b/c''
   \<and> make_tags_url ''https://bitbucket.org/a b/c'' = Inr (Some ''https://bitbucket.org/a b/c#tags'')
   \<and> make_branch_url ''https://bitbucket.org/a b/c'' ''x y'' =
        Inr (Some ''https://bitbucket.org/a b/c/src/x%20y'')
   \<and> user_repo_branch ''https://bitbucket.org/a b/c'' = Inr (Some ''a b/c'', None)
   \<and> issues_url ''a b/c'' = Inr ''https://bitbucket.org/a b/c/issues''
   \<and> make_api_url ''a b/c'' [] = Inr ''https://api.bitbucket.org/2.0/repositories/a b/c''"
  using web_urls_copy_identity [of "''a b''" "''c''" "''x y''" "[]"]
  by (simp add: quote_ab)

text \<open>
  C9 as stated fails: for the repository URL \<^verbatim>\<open>https://bitbucket.org/a b/c\<close> the
  tags page, the branch page and the issues page hold \<^verbatim>\<open>a b\<close>, not \<^verbatim>\<open>a%20b\<close>.
\<close>

theorem web_urls_not_quoted:
  "make_tags_url ''https://bitbucket.org/a b/c'' = Inr (Some ''https://bitbucket.org/a b/c#tags'')
   \<and> make_tags_url ''https://bitbucket.org/a b/c'' \<noteq>
       Inr (Some (''https://bitbucket.org/'' @ quote ''a b'' @ ''/'' @ quote ''c'' @ ''#tags''))
   \<and> make_branch_url ''https://bitbucket.org/a b/c'' ''dev'' \<noteq>
       Inr (Some (''https://bitbucket.org/'' @ quote ''a b'' @ ''/'' @ quote ''c'' @ ''/src/'' @ quote ''dev''))
   \<and> user_repo_branch ''https://bitbucket.org/a b/c'' = Inr (Some ''a b/c'', None)
   \<and> issues_url ''a b/c'' \<noteq> Inr (''https://bitbucket.org/'' @ quote ''a b'' @ ''/'' @ quote ''c'' @ ''/issues'')"
  by (simp add: quote_ab make_tags_url_def make_branch_url_def user_repo_branch_def issues_url_def
       re_match_def repo_pat_def branch_pat_def host_pat_def lit_def group_def)

subsection \<open>A release from a branch\<close>

lemma logged_simp: "logged f u c (s, log) = (fst (f u c s), (snd (f u c s), log @ [u]))"
  by (simp add: logged_def split: prod.splits)

lemma mainbranch_name_obj:
  "getitem repo_json ''mainbranch'' = Inr (JObj mb) \<Longrightarrow>
   mainbranch_name repo_json = Inr (case map_of mb ''name'' of None \<Rightarrow> JStr ''master'' | Some v \<Rightarrow> v)"
  by (simp add: mainbranch_name_def split: option.splits)

lemma branch_release_eq:
  assumes "fetch_json (JStr (''https://api.bitbucket.org/2.0/repositories/'' @ user_repo
              @ ''/refs/branches/'' @ py_str b)) False s = (Inr branch_info, s')"
    and "getitem branch_info ''target'' = Inr target"
    and "getitem target ''date'' = Inr (JStr d)"
  shows "branch_release fetch_json user_repo b s =
     (Inr (DL_List [\<lparr>url = ''https://bitbucket.org/'' @ user_repo @ ''/get/'' @ py_str b @ ''.zip'',
         version = sub_separators (replace_char (CHR ''T'') (CHR '' '') (take 19 d)),
         date = replace_char (CHR ''T'') (CHR '' '') (take 19 d)\<rparr>]), s')"
  unfolding branch_release_def using assms
  by (simp add: make_api_url_eq zip_url_eq branches_suffix_eq del: py_format.simps)

text \<open>
  C5. For a URL that is not a tags URL and that \<^verbatim>\<open>_user_repo_branch\<close> takes apart:
  when the URL names no branch, \<^verbatim>\<open>download_info\<close> fetches the repository info once
  and takes the branch from \<^verbatim>\<open>mainbranch.name\<close>, or \<^verbatim>\<open>master\<close> when \<^verbatim>\<open>mainbranch\<close>
  has no key \<^verbatim>\<open>name\<close>; then it fetches the info of that branch and returns exactly one
  release. Its date is the first 19 characters of the commit timestamp with \<^verbatim>\<open>T\<close>
  replaced by a space, and its version is that date with every hyphen, colon and space
  replaced by a period. The server has received these requests and no other.
\<close>

theorem branch_mode_release:
  assumes "re_match tags_pat u = None"
    and "user_repo_branch u = Inr (Some user_repo, branch)"
    and "branch = None \<Longrightarrow>
           fetch_json (JStr (''https://api.bitbucket.org/2.0/repositories/'' @ user_repo)) False s
             = (Inr repo_json, s1)
           \<and> getitem repo_json ''mainbranch'' = Inr (JObj mb)"
    and "branch \<noteq> None \<Longrightarrow> s1 = s"
    and "b = (case branch of
                Some given \<Rightarrow> JStr given
              | None \<Rightarrow> (case map_of mb ''name'' of None \<Rightarrow> JStr ''master'' | Some v \<Rightarrow> v))"
    and "fetch_json (JStr (''https://api.bitbucket.org/2.0/repositories/'' @ user_repo
              @ ''/refs/branches/'' @ py_str b)) False s1 = (Inr branch_info, s2)"
    and "getitem branch_info ''target'' = Inr target"
    and "getitem target ''date'' = Inr (JStr d)"
    and "ts = map (\<lambda>c. if c = CHR ''T'' then CHR '' '' else c) (take 19 d)"
  shows "download_info (logged fetch_json) settings version_process version_sort u tag_prefix
           (s, []) =
         Some (Inr (DL_List
           [\<lparr>url = ''https://bitbucket.org/'' @ user_repo @ ''/get/'' @ py_str b @ ''.zip'',
             version = map (\<lambda>c. if c = CHR ''-'' \<or> c = CHR '':'' \<or> c = CHR '' ''
                                  then CHR ''.'' else c) ts,
             date = ts\<rparr>]),
           (s2, (if branch = None
                 then [JStr (''https://api.bitbucket.org/2.0/repositories/'' @ user_repo)]
                 else [])
                @ [JStr (''https://api.bitbucket.org/2.0/repositories/'' @ user_repo
                     @ ''/refs/branches/'' @ py_str b)]))"
proof -
  note ne = user_repo_nonempty [OF assms(2)]
  have v: "sub_separators ts = map (\<lambda>c. if c = CHR ''-'' \<or> c = CHR '':'' \<or> c = CHR '' ''
                                  then CHR ''.'' else c) ts"
    by (simp add: sub_separators_def)
  have t: "replace_char (CHR ''T'') (CHR '' '') (take 19 d) = ts"
    by (simp add: assms(9) replace_char_def)
  show ?thesis
  proof (cases branch)
    case None
    with assms(3) have f: "fetch_json (JStr (''https://api.bitbucket.org/2.0/repositories/'' @ user_repo)) False s
             = (Inr repo_json, s1)" and m: "getitem repo_json ''mainbranch'' = Inr (JObj mb)"
      by simp_all
    from None assms(5) have mb: "mainbranch_name repo_json = Inr b"
      by (simp add: mainbranch_name_obj [OF m])
    have "branch_release (logged fetch_json) user_repo b (s1, [JStr (''https://api.bitbucket.org/2.0/repositories/'' @ user_repo)]) = 
       (Inr (DL_List [\<lparr>url = ''https://bitbucket.org/'' @ user_repo @ ''/get/'' @ py_str b @ ''.zip'',
         version = sub_separators (replace_char (CHR ''T'') (CHR '' '') (take 19 d)),
         date = replace_char (CHR ''T'') (CHR '' '') (take 19 d)\<rparr>]), (s2, [JStr (''https://api.bitbucket.org/2.0/repositories/'' @ user_repo), JStr (''https://api.bitbucket.org/2.0/repositories/'' @ user_repo
                     @ ''/refs/branches/'' @ py_str b)]))"
      using assms(6) by (intro branch_release_eq [OF _ assms(7,8)]) (simp add: logged_simp)
    with None f mb ne assms(1,2) show ?thesis
      unfolding download_info_def
      by (simp add: make_api_url_eq logged_simp t v)
  next
    case (Some given)
    with assms(4,5) have s1: "s1 = s" and b: "b = JStr given" by simp_all
    have "branch_release (logged fetch_json) user_repo b (s, []) = 
       (Inr (DL_List [\<lparr>url = ''https://bitbucket.org/'' @ user_repo @ ''/get/'' @ py_str b @ ''.zip'',
         version = sub_separators (replace_char (CHR ''T'') (CHR '' '') (take 19 d)),
         date = replace_char (CHR ''T'') (CHR '' '') (take 19 d)\<rparr>]), (s2, [JStr (''https://api.bitbucket.org/2.0/repositories/'' @ user_repo
                     @ ''/refs/branches/'' @ py_str b)]))"
      using assms(6) s1 by (intro branch_release_eq [OF _ assms(7,8)]) (simp add: logged_simp)
    with Some b ne assms(1,2) show ?thesis
      unfolding download_info_def
      by (simp add: t v)
  qed
qed

lemma demo_patterns:
  "re_match tags_pat ''https://bitbucket.org/a/b'' = None"
  "user_repo_branch ''https://bitbucket.org/a/b'' = Inr (Some ''a/b'', None)"
  by (simp_all add: re_match_def tags_pat_def branch_pat_def repo_pat_def host_pat_def lit_def
        user_repo_branch_def group_def)

theorem branch_mode_release_witness:
  "re_match tags_pat ''https://bitbucket.org/a/b'' = None
   \<and> user_repo_branch ''https://bitbucket.org/a/b'' = Inr (Some ''a/b'', None)
   \<and> download_info (logged demo_server) Map.empty (\<lambda>ks p. []) (\<lambda>vs r. vs)
         ''https://bitbucket.org/a/b'' None ((), []) =
       Some (Inr (DL_List [\<lparr>url = ''https://bitbucket.org/a/b/get/master.zip'',
                            version = ''2021.05.06.12.00.00'',
                            date = ''2021-05-06 12:00:00''\<rparr>]),
             ((), [JStr ''https://api.bitbucket.org/2.0/repositories/a/b'',
                   JStr ''https://api.bitbucket.org/2.0/repositories/a/b/refs/branches/master'']))"
  using branch_mode_release [where u = "''https://bitbucket.org/a/b''" and user_repo = "''a/b''"
      and branch = None and fetch_json = demo_server and s = "()" and ?s1.0 = "()" and ?s2.0 = "()"
      and repo_json = "JObj [(''name'', JStr ''b''), (''description'', JStr []),
                    (''website'', JNull), (''has_issues'', JBool True),
                    (''owner'', JObj [(''username'', JStr ''al'')]),
                    (''mainbranch'', JObj [(''type'', JStr ''branch'')])]"
      and mb = "[(''type'', JStr ''branch'')]" and b = "JStr ''master''"
      and branch_info = "JObj [(''target'', JObj [(''date'', JStr ''2021-05-06T12:00:00+00:00'')])]"
      and target = "JObj [(''date'', JStr ''2021-05-06T12:00:00+00:00'')]"
      and d = "''2021-05-06T12:00:00+00:00''" and ts = "''2021-05-06 12:00:00''"
      and settings = Map.empty and version_process = "\<lambda>ks p. []" and version_sort = "\<lambda>vs r. vs"
      and tag_prefix = None]
  by (simp add: demo_patterns demo_server_def)



subsection \<open>The readme\<close>

lemma find_readme_skip:
  "list_all not_readme pre \<Longrightarrow>
   find_readme user_repo branch (pre @ rest) = find_readme user_repo branch rest"
  by (induction pre) (auto simp: not_readme_def split: sum.splits json.splits)

lemma find_readme_none:
  "list_all not_readme es \<Longrightarrow> find_readme user_repo branch es = Inr None"
  using find_readme_skip [of es user_repo branch "[]"] by simp

lemma find_readme_first:
  "list_all not_readme pre \<Longrightarrow> getitem e ''path'' = Inr (JStr path) \<Longrightarrow>
   lower path \<in> set readme_filenames \<Longrightarrow>
   find_readme user_repo branch (pre @ e # post) =
     Inr (Some (''https://bitbucket.org/'' @ user_repo @ ''/raw/'' @ py_str branch @ ''/'' @ path))"
  by (simp add: find_readme_skip raw_url_eq del: py_format.simps)

lemma readme_walk_step:
  assumes "truthy u" and "f u c s = (Inr p, s')" and "page_items p = Inr es"
  shows "readme_walk f user_repo branch c u s =
     (case find_readme user_repo branch es of
        Inl e \<Rightarrow> Some (Inl e, s')
      | Inr (Some r) \<Rightarrow> Some (Inr (Some r), s')
      | Inr None \<Rightarrow> readme_walk f user_repo branch c (next_link p) s')"
  using assms
  by (subst readme_walk.simps) (auto simp: page_items_def split: sum.splits)

lemma readme_walk_chain:
  "chain f c u s pages = Some (u', s') \<Longrightarrow>
   \<forall>p\<in>set pages. \<exists>es. page_items p = Inr es \<and> list_all not_readme es \<Longrightarrow>
   readme_walk f user_repo branch c u s = readme_walk f user_repo branch c u' s'"
proof (induction pages arbitrary: u s)
  case Nil
  then show ?case by simp
next
  case (Cons p pages)
  from Cons.prems(1) have t: "truthy u" and f: "f u c s = (Inr p, snd (f u c s))"
    and ch: "chain f c (next_link p) (snd (f u c s)) pages = Some (u', s')"
    by (auto split: if_splits simp: prod_eq_iff)
  from Cons.prems(2) obtain es where es: "page_items p = Inr es" "list_all not_readme es"
    by auto
  have "readme_walk f user_repo branch c u s =
        readme_walk f user_repo branch c (next_link p) (snd (f u c s))"
    using readme_walk_step [where f = f and u = u and c = c and s = s and p = p
        and s' = "snd (f u c s)" and es = es and user_repo = user_repo and branch = branch]
      t f es(1) find_readme_none [OF es(2), of user_repo branch]
    by simp
  also have "\<dots> = readme_walk f user_repo branch c u' s'"
    using Cons.IH [OF ch] Cons.prems(2) by simp
  finally show ?case .
qed

lemma readme_walk_end:
  "\<not> truthy u \<Longrightarrow> readme_walk f user_repo branch c u s = Some (Inr None, s)"
  by (subst readme_walk.simps) simp

lemma readme_walk_fail:
  "truthy u \<Longrightarrow> f u c s = (Inl e, s') \<Longrightarrow>
   readme_walk f user_repo branch c u s = Some (Inl e, s')"
  by (subst readme_walk.simps) simp

lemma readme_url_walk:
  "readme_url f user_repo branch c s =
     (case readme_walk f user_repo branch c
             (JStr (''https://api.bitbucket.org/2.0/repositories/'' @ user_repo @ ''/src/''
                @ py_str branch @ ''/?pagelen=100'')) s of
        None \<Rightarrow> None
      | Some (Inl e, s') \<Rightarrow> Some (except_404 e, s')
      | Some (Inr r, s') \<Rightarrow> Some (Inr r, s'))"
  unfolding readme_url_def
  by (simp add: listing_suffix_eq make_api_url_eq del: py_format.simps)

text \<open>
  C7. \<^verbatim>\<open>_readme_url\<close> walks the pages of the listing in the order the server links
  them and the entries of a page in the order they stand. When the pages \<open>pages\<close>
  hold no readme and the next page holds the entries \<open>pre\<close> that are no readme and
  then an entry \<open>e\<close> whose path, in lower case, is one of the nine names, the result
  is the raw URL of \<open>e\<close> with the path as the server spells it, whatever follows
  \<open>e\<close>. When no page is left after \<open>pages\<close>, the result is \<^verbatim>\<open>None\<close>. The names
  are nine, all different.
\<close>

theorem readme_url_first_match:
  assumes "chain f c (JStr (''https://api.bitbucket.org/2.0/repositories/'' @ user_repo
              @ ''/src/'' @ py_str branch @ ''/?pagelen=100'')) s pages = Some (u', s')"
    and "\<forall>p\<in>set pages. \<exists>es. page_items p = Inr es \<and> list_all not_readme es"
  shows "(truthy u' \<and> f u' c s' = (Inr p, s'') \<and> page_items p = Inr (pre @ e # post)
          \<and> list_all not_readme pre \<and> getitem e ''path'' = Inr (JStr path)
          \<and> lower path \<in> set readme_filenames
          \<longrightarrow> readme_url f user_repo branch c s =
                Some (Inr (Some (''https://bitbucket.org/'' @ user_repo @ ''/raw/''
                        @ py_str branch @ ''/'' @ path)), s''))
       \<and> (\<not> truthy u' \<longrightarrow> readme_url f user_repo branch c s = Some (Inr None, s'))
       \<and> length readme_filenames = 9 \<and> distinct readme_filenames"
proof (intro conjI impI)
  assume a: "truthy u' \<and> f u' c s' = (Inr p, s'') \<and> page_items p = Inr (pre @ e # post)
          \<and> list_all not_readme pre \<and> getitem e ''path'' = Inr (JStr path)
          \<and> lower path \<in> set readme_filenames"
  then have "readme_walk f user_repo branch c u' s' =
      Some (Inr (Some (''https://bitbucket.org/'' @ user_repo @ ''/raw/''
                        @ py_str branch @ ''/'' @ path)), s'')"
    using readme_walk_step [where f = f and u = u' and c = c and s = s' and p = p
        and s' = s'' and es = "pre @ e # post" and user_repo = user_repo and branch = branch]
      find_readme_first [of pre e path user_repo branch post]
    by simp
  then show "readme_url f user_repo branch c s =
                Some (Inr (Some (''https://bitbucket.org/'' @ user_repo @ ''/raw/''
                        @ py_str branch @ ''/'' @ path)), s'')"
    unfolding readme_url_walk readme_walk_chain [OF assms] by simp
next
  assume "\<not> truthy u'"
  then show "readme_url f user_repo branch c s = Some (Inr None, s')"
    unfolding readme_url_walk readme_walk_chain [OF assms] by (simp add: readme_walk_end)
next
  show "length readme_filenames = 9" by (simp add: readme_filenames_def)
next
  show "distinct readme_filenames" by (simp add: readme_filenames_def)
qed

theorem readme_url_first_match_witness:
  "chain demo_server False
     (JStr ''https://api.bitbucket.org/2.0/repositories/a/b/src/master/?pagelen=100'') ()
     [JObj [(''values'', JArr [JObj [(''path'', JStr ''setup.py'')],
                               JObj [(''path'', JStr ''docs'')]]),
            (''next'', JStr ''https://api.bitbucket.org/page2'')]]
     = Some (JStr ''https://api.bitbucket.org/page2'', ())
   \<and> lower ''README.MD'' \<in> set readme_filenames
   \<and> readme_url demo_server ''a/b'' (JStr ''master'') False () =
       Some (Inr (Some ''https://bitbucket.org/a/b/raw/master/README.MD''), ())
   \<and> readme_url demo_server ''a/e'' (JStr ''master'') False () = Some (Inr None, ())"
proof -
  have found: "readme_url demo_server ''a/b'' (JStr ''master'') False () =
       Some (Inr (Some ''https://bitbucket.org/a/b/raw/master/README.MD''), ())"
    using readme_url_first_match [where f = demo_server and c = False and s = "()"
        and user_repo = "''a/b''" and branch = "JStr ''master''"
        and pages = "[JObj [(''values'', JArr [JObj [(''path'', JStr ''setup.py'')],
                                               JObj [(''path'', JStr ''docs'')]]),
                            (''next'', JStr ''https://api.bitbucket.org/page2'')]]"
        and u' = "JStr ''https://api.bitbucket.org/page2''" and s' = "()" and s'' = "()"
        and p = "JObj [(''values'', JArr [JObj [(''path'', JStr ''README.MD'')],
                                          JObj [(''path'', JStr ''readme.txt'')]])]"
        and pre = "[]" and e = "JObj [(''path'', JStr ''README.MD'')]"
        and post = "[JObj [(''path'', JStr ''readme.txt'')]]" and path = "''README.MD''"]
    by (simp add: demo_server_def page_items_def not_readme_def lower_def lower_char_def
          readme_filenames_def)
  have none: "readme_url demo_server ''a/e'' (JStr ''master'') False () = Some (Inr None, ())"
    using readme_url_first_match [where f = demo_server and c = False and s = "()"
        and user_repo = "''a/e''" and branch = "JStr ''master''"
        and pages = "[JObj [(''values'', JArr [JObj [(''path'', JStr ''main.py'')]])]]"
        and u' = JNull and s' = "()"]
    by (simp add: demo_server_def page_items_def not_readme_def lower_def lower_char_def
          readme_filenames_def)
  show ?thesis
    using found none
    by (simp add: demo_server_def lower_def lower_char_def readme_filenames_def)
qed

text \<open>
  C8. When \<^verbatim>\<open>fetch_json\<close> raises \<open>e\<close> for a page of the listing, after any number
  of pages without a readme: if \<open>e\<close> is a \<^verbatim>\<open>DownloaderException\<close> whose message holds
  \<^verbatim>\<open>HTTP error 404\<close>, \<^verbatim>\<open>_readme_url\<close> returns \<^verbatim>\<open>None\<close>; otherwise it raises \<open>e\<close>.
\<close>

theorem readme_url_fetch_failure:
  assumes "chain f c (JStr (''https://api.bitbucket.org/2.0/repositories/'' @ user_repo
              @ ''/src/'' @ py_str branch @ ''/?pagelen=100'')) s pages = Some (u', s')"
    and "\<forall>p\<in>set pages. \<exists>es. page_items p = Inr es \<and> list_all not_readme es"
    and "truthy u'"
    and "f u' c s' = (Inl e, s'')"
  shows "readme_url f user_repo branch c s =
           Some ((case e of
                    DownloaderException m \<Rightarrow>
                      if str_contains ''HTTP error 404'' m then Inr None else Inl e
                  | _ \<Rightarrow> Inl e), s'')"
  unfolding readme_url_walk readme_walk_chain [OF assms(1,2)]
  using readme_walk_fail [where f = f and u = u' and c = c and s = s' and e = e and s' = s''
      and user_repo = user_repo and branch = branch] assms(3,4)
  by (simp split: exn.splits)

theorem readme_url_fetch_failure_witness:
  "demo_server (JStr ''https://api.bitbucket.org/2.0/repositories/a/x/src/dev/?pagelen=100'')
     False () = (Inl (DownloaderException ''HTTP error 500 downloading''), ())
   \<and> readme_url demo_server ''a/x'' (JStr ''dev'') False () =
       Some (Inl (DownloaderException ''HTTP error 500 downloading''), ())
   \<and> demo_server (JStr ''https://api.bitbucket.org/2.0/repositories/a/z/src/dev/?pagelen=100'')
     False () = (Inl (DownloaderException ''HTTP error 404 downloading''), ())
   \<and> readme_url demo_server ''a/z'' (JStr ''dev'') False () = Some (Inr None, ())"
proof -
  have other: "readme_url demo_server ''a/x'' (JStr ''dev'') False () =
       Some (Inl (DownloaderException ''HTTP error 500 downloading''), ())"
    using readme_url_fetch_failure [where f = demo_server and c = False and s = "()"
        and user_repo = "''a/x''" and branch = "JStr ''dev''" and pages = "[]"
        and u' = "JStr ''https://api.bitbucket.org/2.0/repositories/a/x/src/dev/?pagelen=100''"
        and s' = "()" and s'' = "()"
        and e = "DownloaderException ''HTTP error 500 downloading''"]
    by (simp add: demo_server_def)
  have missing: "readme_url demo_server ''a/z'' (JStr ''dev'') False () = Some (Inr None, ())"
    using readme_url_fetch_failure [where f = demo_server and c = False and s = "()"
        and user_repo = "''a/z''" and branch = "JStr ''dev''" and pages = "[]"
        and u' = "JStr ''https://api.bitbucket.org/2.0/repositories/a/z/src/dev/?pagelen=100''"
        and s' = "()" and s'' = "()"
        and e = "DownloaderException ''HTTP error 404 downloading''"]
    by (simp add: demo_server_def)
  show ?thesis
    using other missing by (simp add: demo_server_def)
qed



subsection \<open>The metadata of a repository\<close>

lemma owner_author_obj:
  "getitem repo_json ''owner'' = Inr (JObj owner) \<Longrightarrow>
   owner_author repo_json =
     Inr (case map_of owner ''nickname'' of
            None \<Rightarrow> (case map_of owner ''username'' of None \<Rightarrow> JNull | Some v \<Rightarrow> v)
          | Some a \<Rightarrow>
              if a = JNull
              then (case map_of owner ''username'' of None \<Rightarrow> JNull | Some v \<Rightarrow> v)
              else a)"
  by (simp add: owner_author_def split: option.splits)

text \<open>
  C6, as the code has it. For a URL that \<^verbatim>\<open>_user_repo_branch\<close> takes apart, when the
  repository info holds the keys that \<^verbatim>\<open>repo_info\<close> reads with a subscript
  (\<^verbatim>\<open>owner\<close>, \<^verbatim>\<open>name\<close>, \<^verbatim>\<open>description\<close>, \<^verbatim>\<open>website\<close>, \<^verbatim>\<open>has_issues\<close>) and
  \<^verbatim>\<open>_readme_url\<close> returns \<open>r\<close>, the result is the dictionary with: the description of
  the server, or the literal \<^verbatim>\<open>No description provided\<close> when that is null or empty
  (any false value); the website of the server, or the input URL when that is null or
  empty; as author the \<^verbatim>\<open>nickname\<close> of the owner, or its \<^verbatim>\<open>username\<close> when the
  nickname is missing or null; the issues page exactly when \<^verbatim>\<open>has_issues\<close> is true,
  \<^verbatim>\<open>None\<close> otherwise; and \<^verbatim>\<open>None\<close> as \<^verbatim>\<open>donate\<close>.
\<close>

theorem repo_info_fields:
  assumes "user_repo_branch u = Inr (Some user_repo, branch)"
    and "fetch_json (JStr (''https://api.bitbucket.org/2.0/repositories/'' @ user_repo)) False s
           = (Inr repo_json, s1)"
    and "(case branch of None \<Rightarrow> mainbranch_name repo_json | Some given \<Rightarrow> Inr (JStr given))
           = Inr b"
    and "getitem repo_json ''owner'' = Inr (JObj owner)"
    and "getitem repo_json ''name'' = Inr n"
    and "getitem repo_json ''description'' = Inr d"
    and "getitem repo_json ''website'' = Inr w"
    and "readme_url fetch_json user_repo b False s1 = Some (Inr r, s2)"
    and "getitem repo_json ''has_issues'' = Inr h"
  shows "repo_info fetch_json u s =
     Some (Inr (RI_Dict
       \<lparr>name = n,
        description = (if truthy d then d else JStr ''No description provided''),
        homepage = (if truthy w then w else JStr u),
        author =
          (case map_of owner ''nickname'' of
             None \<Rightarrow> (case map_of owner ''username'' of None \<Rightarrow> JNull | Some v \<Rightarrow> v)
           | Some a \<Rightarrow>
               if a = JNull
               then (case map_of owner ''username'' of None \<Rightarrow> JNull | Some v \<Rightarrow> v)
               else a),
        donate = None,
        readme = r,
        issues = (if truthy h then Some (''https://bitbucket.org/'' @ user_repo @ ''/issues'')
                  else None)\<rparr>), s2)"
  using assms user_repo_nonempty [OF assms(1)] owner_author_obj [OF assms(4)]
  unfolding repo_info_def repo_dict_def
  by (simp add: make_api_url_eq issues_url_eq py_or_def del: py_format.simps)

lemma demo_readme:
  "readme_url demo_server ''a/b'' (JStr ''master'') False () =
     Some (Inr (Some ''https://bitbucket.org/a/b/raw/master/README.MD''), ())"
  by (simp add: readme_url_walk readme_walk.simps demo_server_def lower_def lower_char_def
        readme_filenames_def)

theorem repo_info_fields_witness:
  "user_repo_branch ''https://bitbucket.org/a/b'' = Inr (Some ''a/b'', None)
   \<and> readme_url demo_server ''a/b'' (JStr ''master'') False () =
       Some (Inr (Some ''https://bitbucket.org/a/b/raw/master/README.MD''), ())
   \<and> repo_info demo_server ''https://bitbucket.org/a/b'' () =
       Some (Inr (RI_Dict
         \<lparr>name = JStr ''b'',
          description = JStr ''No description provided'',
          homepage = JStr ''https://bitbucket.org/a/b'',
          author = JStr ''al'',
          donate = None,
          readme = Some ''https://bitbucket.org/a/b/raw/master/README.MD'',
          issues = Some ''https://bitbucket.org/a/b/issues''\<rparr>), ())"
  using repo_info_fields [where fetch_json = demo_server and u = "''https://bitbucket.org/a/b''"
      and user_repo = "''a/b''" and branch = None and s = "()" and ?s1.0 = "()" and ?s2.0 = "()"
      and repo_json = "JObj [(''name'', JStr ''b''), (''description'', JStr []),
                    (''website'', JNull), (''has_issues'', JBool True),
                    (''owner'', JObj [(''username'', JStr ''al'')]),
                    (''mainbranch'', JObj [(''type'', JStr ''branch'')])]"
      and b = "JStr ''master''" and owner = "[(''username'', JStr ''al'')]"
      and n = "JStr ''b''" and d = "JStr []" and w = JNull and h = "JBool True"
      and r = "Some ''https://bitbucket.org/a/b/raw/master/README.MD''"]
  by (simp add: demo_patterns demo_readme demo_server_def mainbranch_name_def)


text \<open>
  C6 as stated fails where it says that an absent description gives the fallback: the
  description is read with a plain subscript, so for a repository info without the key
  \<^verbatim>\<open>description\<close> \<^verbatim>\<open>repo_info\<close> raises \<^verbatim>\<open>KeyError\<close> and returns no record.
\<close>

theorem repo_info_description_missing:
  "repo_info bare_server ''https://bitbucket.org/a/b'' () =
     Some (Inl (KeyError ''description''), ())"
  by (simp add: repo_info_def demo_patterns make_api_url_eq issues_url_eq bare_server_def
        mainbranch_name_def owner_author_def repo_dict_def)

subsection \<open>Releases from tags\<close>

lemma collect_tags_step:
  assumes "truthy u" and "f u False s = (Inr p, s')" and "page_items p = Inr tags"
    and "merge_tags td tags = Inr td'"
  shows "collect_tags f td u s = collect_tags f td' (next_link p) s'"
  using assms
  by (subst collect_tags.simps) (auto simp: page_items_def split: sum.splits)

lemma collect_tags_end: "\<not> truthy u \<Longrightarrow> collect_tags f td u s = Some (Inr td, s)"
  by (subst collect_tags.simps) simp

lemma collect_tags_chain:
  "chain f False u s pages = Some (u', s') \<Longrightarrow> merge_pages td pages = Inr td' \<Longrightarrow>
   collect_tags f td u s = collect_tags f td' u' s'"
proof (induction pages arbitrary: u s td)
  case Nil
  then show ?case by simp
next
  case (Cons p pages)
  from Cons.prems(1) have t: "truthy u" and f: "f u False s = (Inr p, snd (f u False s))"
    and ch: "chain f False (next_link p) (snd (f u False s)) pages = Some (u', s')"
    by (auto split: if_splits simp: prod_eq_iff)
  from Cons.prems(2) obtain tags td1 where pg: "page_items p = Inr tags"
    and mg: "merge_tags td tags = Inr td1" and rest: "merge_pages td1 pages = Inr td'"
    by (auto split: sum.splits)
  have "collect_tags f td u s = collect_tags f td1 (next_link p) (snd (f u False s))"
    using collect_tags_step [where f = f and u = u and s = s and p = p
        and s' = "snd (f u False s)" and tags = tags and td = td and td' = td1] t f pg mg
    by simp
  also have "\<dots> = collect_tags f td' u' s'"
    by (rule Cons.IH [OF ch rest])
  finally show ?case .
qed

lemma first_seen_subset: "set (first_seen xs seen) \<subseteq> set xs"
  by (induction xs arbitrary: seen) auto

lemma first_seen_fresh: "i \<in> set (first_seen xs seen) \<Longrightarrow> info_version i \<notin> seen"
  by (induction xs arbitrary: seen) (auto split: if_splits)

lemma first_seen_distinct: "distinct (map info_version (first_seen xs seen))"
  by (induction xs arbitrary: seen) (auto dest: first_seen_fresh)

lemma first_seen_sorted: "sorted_wrt P xs \<Longrightarrow> sorted_wrt P (first_seen xs seen)"
  using first_seen_subset by (induction xs arbitrary: seen) fastforce+

lemma first_seen_find:
  "i \<in> set (first_seen xs seen) \<Longrightarrow> find (\<lambda>j. info_version j = info_version i) xs = Some i"
  by (induction xs arbitrary: seen) (auto split: if_splits dest: first_seen_fresh)

lemma first_seen_length:
  "finite seen \<Longrightarrow> length (first_seen xs seen) = card (info_version ` set xs - seen)"
proof (induction xs arbitrary: seen)
  case Nil
  then show ?case by simp
next
  case (Cons x xs)
  show ?case
  proof (cases "info_version x \<in> seen")
    case True
    with Cons show ?thesis by (simp add: insert_Diff_if)
  next
    case False
    have eq: "info_version ` set (x # xs) - seen =
              insert (info_version x) (info_version ` set xs - insert (info_version x) seen)"
      using False by auto
    from False Cons.prems Cons.IH [of "insert (info_version x) seen"] show ?thesis
      by (simp only: eq first_seen.simps if_False) simp
  qed
qed

lemma sorted_wrt_distinct:
  "sorted_wrt P xs \<Longrightarrow> distinct (map f xs) \<Longrightarrow> sorted_wrt (\<lambda>a b. P a b \<and> f a \<noteq> f b) xs"
  by (induction xs) auto

lemma emit_releases_fresh:
  assumes "info_version info \<notin> used"
    and "dict_lookup td (JStr (info_prefix info @ info_version info)) = Some d"
  shows "emit_releases ur td mr (info # rest) used out =
     (if 0 < mr \<and> mr \<le> int (card (insert (info_version info) used))
      then Inr (out @ [\<lparr>url = ''https://bitbucket.org/'' @ ur @ ''/get/''
                  @ (info_prefix info @ info_version info) @ ''.zip'',
               version = info_version info, date = d\<rparr>])
      else emit_releases ur td mr rest (insert (info_version info) used)
             (out @ [\<lparr>url = ''https://bitbucket.org/'' @ ur @ ''/get/''
                  @ (info_prefix info @ info_version info) @ ''.zip'',
               version = info_version info, date = d\<rparr>]))"
  using assms by (simp add: zip_url_eq Let_def del: py_format.simps)

lemma emit_releases_eq:
  assumes "finite used" and "0 < mr \<longrightarrow> int (card used) < mr"
    and "\<forall>i\<in>set infos. dict_lookup td (JStr (info_prefix i @ info_version i)) \<noteq> None"
  shows "\<exists>rs. emit_releases ur td mr infos used out = Inr (out @ rs)
           \<and> list_all2 (release_of ur td)
                (if 0 < mr then take (nat mr - card used) (first_seen infos used)
                 else first_seen infos used) rs"
  using assms
proof (induction infos arbitrary: used out)
  case Nil
  then show ?case by simp
next
  case (Cons info rest)
  from Cons.prems(3) have rest3:
    "\<forall>i\<in>set rest. dict_lookup td (JStr (info_prefix i @ info_version i)) \<noteq> None"
    by simp
  show ?case
  proof (cases "info_version info \<in> used")
    case True
    with Cons.IH [OF Cons.prems(1,2) rest3, of out] show ?thesis
      by (cases "0 < mr") simp_all
  next
    case False
    from Cons.prems(3) obtain d where d:
      "dict_lookup td (JStr (info_prefix info @ info_version info)) = Some d"
      by auto
    let ?r = "\<lparr>url = ''https://bitbucket.org/'' @ ur @ ''/get/''
                  @ (info_prefix info @ info_version info) @ ''.zip'',
               version = info_version info, date = d\<rparr>"
    let ?used = "insert (info_version info) used"
    have r: "release_of ur td info ?r"
      by (simp add: release_of_def d)
    have card: "card ?used = Suc (card used)"
      using False Cons.prems(1) by simp
    show ?thesis
    proof (cases "0 < mr \<and> int (card ?used) \<ge> mr")
      case True
      with Cons.prems(2) card have one: "nat mr - card used = Suc 0" by auto
      have "emit_releases ur td mr (info # rest) used out = Inr (out @ [?r])"
        unfolding emit_releases_fresh [OF False d] using True by (simp only: if_P)
      with True False r one show ?thesis by simp
    next
      case stop: False
      have fin: "finite ?used" using Cons.prems(1) by simp
      have lt: "0 < mr \<longrightarrow> int (card ?used) < mr" using stop by auto
      from Cons.IH [OF fin lt rest3, of "out @ [?r]"]
      obtain rs where rs: "emit_releases ur td mr rest ?used (out @ [?r]) = Inr ((out @ [?r]) @ rs)"
        and l2: "list_all2 (release_of ur td)
                (if 0 < mr then take (nat mr - card ?used) (first_seen rest ?used)
                 else first_seen rest ?used) rs"
        by auto
      have "emit_releases ur td mr (info # rest) used out = Inr (out @ ?r # rs)"
        unfolding emit_releases_fresh [OF False d] using stop rs by (simp only: if_not_P) simp
      moreover have "list_all2 (release_of ur td)
                (if 0 < mr then take (nat mr - card used) (first_seen (info # rest) used)
                 else first_seen (info # rest) used) (?r # rs)"
      proof (cases "0 < mr")
        case True
        with lt card have "nat mr - card used = Suc (nat mr - card ?used)" by auto
        with True False l2 r show ?thesis by simp
      next
        case False': False
        with False l2 r show ?thesis by simp
      qed
      ultimately show ?thesis by blast
    qed
  qed
qed


lemma emit_releases_start:
  assumes "\<forall>i\<in>set infos. dict_lookup td (JStr (info_prefix i @ info_version i)) \<noteq> None"
  shows "\<exists>rs. emit_releases ur td mr infos {} [] = Inr rs
           \<and> list_all2 (release_of ur td) (capped mr (first_seen infos {})) rs"
  using emit_releases_eq [of "{}" mr infos td ur "[]"] assms
  by (cases "0 < mr") (simp_all add: capped_def)

lemma download_info_tags:
  assumes "re_match tags_pat u = Some [user_repo]"
    and "chain fetch_json False (JStr (''https://api.bitbucket.org/2.0/repositories/''
            @ user_repo @ ''/refs/tags?pagelen=100'')) s pages = Some (last_next, s')"
    and "\<not> truthy last_next"
    and "merge_pages [] pages = Inr tags_list"
  shows "download_info fetch_json settings version_process version_sort u tag_prefix s =
     (if version_sort (version_process (dict_keys tags_list) tag_prefix) True = []
      then Some (Inr DL_False, s')
      else (case emit_releases user_repo tags_list (settings_get settings ''max_releases'' 0)
                   (version_sort (version_process (dict_keys tags_list) tag_prefix) True)
                   {} [] of
              Inl e \<Rightarrow> Some (Inl e, s')
            | Inr outp \<Rightarrow> Some (Inr (DL_List outp), s')))"
proof -
  have "collect_tags fetch_json [] (JStr (''https://api.bitbucket.org/2.0/repositories/''
            @ user_repo @ ''/refs/tags?pagelen=100'')) s = Some (Inr tags_list, s')"
    unfolding collect_tags_chain [OF assms(2,4)] by (rule collect_tags_end [OF assms(3)])
  then show ?thesis
    unfolding download_info_def using assms(1)
    by (simp add: group_def make_api_url_eq Let_def del: py_format.simps)
qed

text \<open>The example server and the example collaborators, evaluated.\<close>

lemma demo_tags_match: "re_match tags_pat ''https://bitbucket.org/a/b#tags'' = Some [''a/b'']"
  by (simp add: re_match_def tags_pat_def host_pat_def lit_def)

lemma demo_tags_chain:
  "chain demo_server False
     (JStr (''https://api.bitbucket.org/2.0/repositories/'' @ ''a/b'' @ ''/refs/tags?pagelen=100''))
     () [demo_tags1, demo_tags2] = Some (JNull, ())"
  by (simp add: demo_server_def demo_tags1_def demo_tags2_def)

lemma demo_tags_merge: "merge_pages [] [demo_tags1, demo_tags2] = Inr demo_tagdict"
  by (simp add: demo_tags1_def demo_tags2_def demo_tagdict_def page_items_def replace_char_def
        key_eq_def)

lemma demo_tags_sorted:
  "demo_tag_info = demo_version_sort (demo_version_process (dict_keys demo_tagdict) None) True"
  by (simp add: demo_tag_info_def demo_version_sort_def demo_version_process_def dict_keys_def
        demo_tagdict_def demo_split_def startswith_def demo_ge_def digit_pos_def)

lemma demo_tags_keys:
  "\<forall>i\<in>set demo_tag_info.
     dict_lookup demo_tagdict (JStr (info_prefix i @ info_version i)) \<noteq> None"
  by (simp add: demo_tag_info_def demo_tagdict_def key_eq_def)

lemma demo_tags_ge:
  "sorted_wrt (\<lambda>a b. demo_ge (info_version a) (info_version b)) demo_tag_info"
  by (simp add: demo_tag_info_def demo_ge_def digit_pos_def)

lemma demo_emit:
  "emit_releases ''a/b'' demo_tagdict 0 demo_tag_info {} [] = Inr demo_releases"
  "emit_releases ''a/b'' demo_tagdict 1 demo_tag_info {} [] = Inr [hd demo_releases]"
  "emit_releases ''a/b'' demo_tagdict (- 1) demo_tag_info {} [] = Inr demo_releases"
  by (simp_all add: demo_tagdict_def demo_tag_info_def demo_releases_def key_eq_def
        url_pattern_def)


lemma demo_tag_info_ne: "demo_tag_info \<noteq> []"
  by (simp add: demo_tag_info_def)

lemma demo_download:
  "download_info demo_server settings demo_version_process demo_version_sort
     ''https://bitbucket.org/a/b#tags'' None () =
   (case emit_releases ''a/b'' demo_tagdict (settings_get settings ''max_releases'' 0)
           demo_tag_info {} [] of
      Inl e \<Rightarrow> Some (Inl e, ())
    | Inr outp \<Rightarrow> Some (Inr (DL_List outp), ()))"
  using download_info_tags [where fetch_json = demo_server and u = "''https://bitbucket.org/a/b#tags''"
      and user_repo = "''a/b''" and s = "()" and s' = "()" and last_next = JNull
      and pages = "[demo_tags1, demo_tags2]" and tags_list = demo_tagdict
      and settings = settings and version_process = demo_version_process
      and version_sort = demo_version_sort and tag_prefix = None,
      OF demo_tags_match demo_tags_chain _ demo_tags_merge]
  by (simp add: demo_tags_sorted [symmetric] demo_tag_info_ne)

lemma demo_empty_match: "re_match tags_pat ''https://bitbucket.org/a/e#tags'' = Some [''a/e'']"
  by (simp add: re_match_def tags_pat_def host_pat_def lit_def)

lemma demo_empty_chain:
  "chain demo_server False
     (JStr (''https://api.bitbucket.org/2.0/repositories/'' @ ''a/e'' @ ''/refs/tags?pagelen=100''))
     () [JObj [(''values'', JArr [])]] = Some (JNull, ())"
  by (simp add: demo_server_def)

lemma demo_empty_merge: "merge_pages [] [JObj [(''values'', JArr [])]] = Inr []"
  by (simp add: page_items_def)

lemma demo_empty_process: "demo_version_process (dict_keys []) None = []"
  by (simp add: demo_version_process_def dict_keys_def)

lemma demo_empty_sort: "demo_version_sort [] True = []"
  by (simp add: demo_version_sort_def)

text \<open>
  C2. For a tags URL, when the server answers the tags request and the \<^verbatim>\<open>next\<close> links
  that follow with the pages \<open>pages\<close>, the last of which has no \<^verbatim>\<open>next\<close>,
  \<^verbatim>\<open>download_info\<close> merges the tags of all these pages into one dictionary before it
  calls \<^verbatim>\<open>version_process\<close>. When \<^verbatim>\<open>version_sort\<close> has put the entries in descending
  order (\<open>ge\<close>) and every entry names a tag of the dictionary, the result is the list
  of the releases of the entries that are the first of their version in that order, cut
  to \<^verbatim>\<open>max_releases\<close>: it is descending and no version stands in it twice.
\<close>

theorem tags_mode_releases:
  assumes "re_match tags_pat u = Some [user_repo]"
    and "chain fetch_json False (JStr (''https://api.bitbucket.org/2.0/repositories/''
            @ user_repo @ ''/refs/tags?pagelen=100'')) s pages = Some (last_next, s')"
    and "\<not> truthy last_next"
    and "merge_pages [] pages = Inr tags_list"
    and "tag_info = version_sort (version_process (dict_keys tags_list) tag_prefix) True"
    and "tag_info \<noteq> []"
    and "\<forall>i\<in>set tag_info.
           dict_lookup tags_list (JStr (info_prefix i @ info_version i)) \<noteq> None"
    and "sorted_wrt (\<lambda>a b. ge (info_version a) (info_version b)) tag_info"
  shows "\<exists>outp.
           download_info fetch_json settings version_process version_sort u tag_prefix s =
             Some (Inr (DL_List outp), s')
         \<and> list_all2 (release_of user_repo tags_list)
              (capped (settings_get settings ''max_releases'' 0) (first_seen tag_info {})) outp
         \<and> (\<forall>i\<in>set (first_seen tag_info {}).
               find (\<lambda>j. info_version j = info_version i) tag_info = Some i)
         \<and> sorted_wrt (\<lambda>a b. ge (version a) (version b) \<and> version a \<noteq> version b) outp"
proof -
  let ?mr = "settings_get settings ''max_releases'' 0"
  let ?sel = "capped ?mr (first_seen tag_info {})"
  from emit_releases_start [OF assms(7), of user_repo ?mr]
  obtain outp where out: "emit_releases user_repo tags_list ?mr tag_info {} [] = Inr outp"
    and l2: "list_all2 (release_of user_repo tags_list) ?sel outp"
    by blast
  have dl: "download_info fetch_json settings version_process version_sort u tag_prefix s =
             Some (Inr (DL_List outp), s')"
    unfolding download_info_tags [OF assms(1-4)] using assms(5,6) out by simp
  have vs: "map version outp = map info_version ?sel"
    using l2 by (induction rule: list_all2_induct) (simp_all add: release_of_def)
  have "sorted_wrt (\<lambda>a b. ge (info_version a) (info_version b)) (first_seen tag_info {})"
    by (rule first_seen_sorted [OF assms(8)])
  then have "sorted_wrt (\<lambda>a b. ge (info_version a) (info_version b)
                \<and> info_version a \<noteq> info_version b) (first_seen tag_info {})"
    by (rule sorted_wrt_distinct [OF _ first_seen_distinct])
  then have "sorted_wrt (\<lambda>a b. ge (info_version a) (info_version b)
                \<and> info_version a \<noteq> info_version b) ?sel"
    by (simp add: capped_def sorted_wrt_take)
  then have "sorted_wrt (\<lambda>a b. ge a b \<and> a \<noteq> b) (map info_version ?sel)"
    by (simp add: sorted_wrt_map)
  then have "sorted_wrt (\<lambda>a b. ge a b \<and> a \<noteq> b) (map version outp)"
    by (simp only: vs)
  then have srt: "sorted_wrt (\<lambda>a b. ge (version a) (version b) \<and> version a \<noteq> version b) outp"
    by (simp add: sorted_wrt_map)
  from dl l2 srt first_seen_find show ?thesis by blast
qed

theorem tags_mode_releases_witness:
  "re_match tags_pat ''https://bitbucket.org/a/b#tags'' = Some [''a/b'']
   \<and> merge_pages [] [demo_tags1, demo_tags2] = Inr demo_tagdict
   \<and> demo_tag_info = demo_version_sort (demo_version_process (dict_keys demo_tagdict) None) True
   \<and> sorted_wrt (\<lambda>a b. demo_ge (info_version a) (info_version b)) demo_tag_info
   \<and> download_info demo_server Map.empty demo_version_process demo_version_sort
         ''https://bitbucket.org/a/b#tags'' None () = Some (Inr (DL_List demo_releases), ())
   \<and> list_all2 (release_of ''a/b'' demo_tagdict) (first_seen demo_tag_info {}) demo_releases
   \<and> sorted_wrt (\<lambda>a b. demo_ge (version a) (version b) \<and> version a \<noteq> version b)
         demo_releases"
proof -
  have dl: "download_info demo_server Map.empty demo_version_process demo_version_sort
         ''https://bitbucket.org/a/b#tags'' None () = Some (Inr (DL_List demo_releases), ())"
    by (simp add: demo_download settings_get_def demo_emit)
  from tags_mode_releases [where fetch_json = demo_server
      and u = "''https://bitbucket.org/a/b#tags''"
      and user_repo = "''a/b''" and s = "()" and s' = "()" and last_next = JNull
      and pages = "[demo_tags1, demo_tags2]" and tags_list = demo_tagdict
      and settings = Map.empty and version_process = demo_version_process
      and version_sort = demo_version_sort and tag_prefix = None
      and tag_info = demo_tag_info and ge = demo_ge,
      OF demo_tags_match demo_tags_chain _ demo_tags_merge demo_tags_sorted demo_tag_info_ne
         demo_tags_keys demo_tags_ge]
  have "list_all2 (release_of ''a/b'' demo_tagdict) (first_seen demo_tag_info {}) demo_releases
     \<and> sorted_wrt (\<lambda>a b. demo_ge (version a) (version b) \<and> version a \<noteq> version b)
         demo_releases"
    by (auto simp: dl capped_def settings_get_def)
  with dl demo_tags_match demo_tags_merge demo_tags_sorted demo_tags_ge show ?thesis
    by blast
qed

text \<open>
  C3, as the code has it. The list holds one release for each version; when
  \<^verbatim>\<open>max_releases\<close> is positive it holds at most \<^verbatim>\<open>max_releases\<close> of them (the
  smaller of \<^verbatim>\<open>max_releases\<close> and the number of versions), and when \<^verbatim>\<open>max_releases\<close>
  is 0 or negative it holds them all. With \<^verbatim>\<open>max_releases = 1\<close> it holds exactly one.
\<close>

theorem tags_mode_max_releases:
  assumes "re_match tags_pat u = Some [user_repo]"
    and "chain fetch_json False (JStr (''https://api.bitbucket.org/2.0/repositories/''
            @ user_repo @ ''/refs/tags?pagelen=100'')) s pages = Some (last_next, s')"
    and "\<not> truthy last_next"
    and "merge_pages [] pages = Inr tags_list"
    and "tag_info = version_sort (version_process (dict_keys tags_list) tag_prefix) True"
    and "tag_info \<noteq> []"
    and "\<forall>i\<in>set tag_info.
           dict_lookup tags_list (JStr (info_prefix i @ info_version i)) \<noteq> None"
    and "max_releases = settings_get settings ''max_releases'' 0"
  shows "\<exists>outp.
           download_info fetch_json settings version_process version_sort u tag_prefix s =
             Some (Inr (DL_List outp), s')
         \<and> distinct (map version outp)
         \<and> (0 < max_releases \<longrightarrow>
               int (length outp) \<le> max_releases
               \<and> length outp = min (nat max_releases) (card (info_version ` set tag_info)))
         \<and> (max_releases \<le> 0 \<longrightarrow> length outp = card (info_version ` set tag_info))"
proof -
  let ?sel = "capped max_releases (first_seen tag_info {})"
  from emit_releases_start [OF assms(7), of user_repo max_releases]
  obtain outp where
    out: "emit_releases user_repo tags_list max_releases tag_info {} [] = Inr outp"
    and l2: "list_all2 (release_of user_repo tags_list) ?sel outp"
    by blast
  have dl: "download_info fetch_json settings version_process version_sort u tag_prefix s =
             Some (Inr (DL_List outp), s')"
    unfolding download_info_tags [OF assms(1-4)] using assms(5,6,8) out by simp
  have vs: "map version outp = map info_version ?sel"
    using l2 by (induction rule: list_all2_induct) (simp_all add: release_of_def)
  have len: "length outp = length ?sel"
    using l2 by (simp add: list_all2_lengthD)
  have fs: "length (first_seen tag_info {}) = card (info_version ` set tag_info)"
    by (simp add: first_seen_length)
  have d: "distinct (map version outp)"
    unfolding vs capped_def using first_seen_distinct [of tag_info "{}"]
    by (simp add: distinct_take take_map [symmetric] del: take_map)
  from dl d len fs show ?thesis
    by (auto simp: capped_def)
qed

theorem tags_mode_max_releases_witness:
  "re_match tags_pat ''https://bitbucket.org/a/b#tags'' = Some [''a/b'']
   \<and> merge_pages [] [demo_tags1, demo_tags2] = Inr demo_tagdict
   \<and> demo_tag_info = demo_version_sort (demo_version_process (dict_keys demo_tagdict) None) True
   \<and> card (info_version ` set demo_tag_info) = 3
   \<and> (\<exists>outp. download_info demo_server [''max_releases'' \<mapsto> 1] demo_version_process
                demo_version_sort ''https://bitbucket.org/a/b#tags'' None () =
                Some (Inr (DL_List outp), ())
             \<and> length outp = 1)"
proof -
  have c: "card (info_version ` set demo_tag_info) = 3"
    by (simp add: demo_tag_info_def)
  from tags_mode_max_releases [where fetch_json = demo_server
      and u = "''https://bitbucket.org/a/b#tags''"
      and user_repo = "''a/b''" and s = "()" and s' = "()" and last_next = JNull
      and pages = "[demo_tags1, demo_tags2]" and tags_list = demo_tagdict
      and settings = "[''max_releases'' \<mapsto> 1]" and version_process = demo_version_process
      and version_sort = demo_version_sort and tag_prefix = None
      and tag_info = demo_tag_info and max_releases = 1,
      OF demo_tags_match demo_tags_chain _ demo_tags_merge demo_tags_sorted demo_tag_info_ne
         demo_tags_keys]
  have "\<exists>outp. download_info demo_server [''max_releases'' \<mapsto> 1] demo_version_process
                demo_version_sort ''https://bitbucket.org/a/b#tags'' None () =
                Some (Inr (DL_List outp), ())
             \<and> length outp = 1"
    by (auto simp: c settings_get_def)
  with c demo_tags_match demo_tags_merge demo_tags_sorted show ?thesis
    by blast
qed

text \<open>
  C3 as stated (at most \<^verbatim>\<open>max_releases\<close> entries whenever the setting is not 0) fails
  for a negative setting: the guard \<^verbatim>\<open>max_releases > 0\<close> never breaks the loop, and with
  \<^verbatim>\<open>max_releases = -1\<close> the three releases are returned.
\<close>

theorem max_releases_negative:
  "download_info demo_server [''max_releases'' \<mapsto> - 1] demo_version_process demo_version_sort
     ''https://bitbucket.org/a/b#tags'' None () = Some (Inr (DL_List demo_releases), ())
   \<and> (- 1 :: int) \<noteq> 0
   \<and> \<not> int (length demo_releases) \<le> - 1"
  by (simp add: demo_download settings_get_def demo_emit)

text \<open>
  C4. For a tags URL whose pages hold no tag, or only tags of which \<^verbatim>\<open>version_process\<close>
  accepts none, \<^verbatim>\<open>download_info\<close> returns \<^verbatim>\<open>False\<close>, which is neither \<^verbatim>\<open>None\<close> nor
  an empty list.
\<close>

theorem tags_mode_no_releases:
  assumes "re_match tags_pat u = Some [user_repo]"
    and "chain fetch_json False (JStr (''https://api.bitbucket.org/2.0/repositories/''
            @ user_repo @ ''/refs/tags?pagelen=100'')) s pages = Some (last_next, s')"
    and "\<not> truthy last_next"
    and "merge_pages [] pages = Inr tags_list"
    and "version_process (dict_keys tags_list) tag_prefix = []"
    and "version_sort [] True = []"
  shows "download_info fetch_json settings version_process version_sort u tag_prefix s =
           Some (Inr DL_False, s')
         \<and> DL_False \<noteq> DL_None \<and> DL_False \<noteq> DL_List []"
  unfolding download_info_tags [OF assms(1-4)] using assms(5,6) by simp

theorem tags_mode_no_releases_witness:
  "re_match tags_pat ''https://bitbucket.org/a/e#tags'' = Some [''a/e'']
   \<and> merge_pages [] [JObj [(''values'', JArr [])]] = Inr []
   \<and> demo_version_process (dict_keys []) None = []
   \<and> demo_version_sort [] True = []
   \<and> download_info demo_server Map.empty demo_version_process demo_version_sort
        ''https://bitbucket.org/a/e#tags'' None () = Some (Inr DL_False, ())"
  using tags_mode_no_releases [where fetch_json = demo_server
      and u = "''https://bitbucket.org/a/e#tags''"
      and user_repo = "''a/e''" and s = "()" and s' = "()" and last_next = JNull
      and pages = "[JObj [(''values'', JArr [])]]" and tags_list = "[]"
      and settings = Map.empty and version_process = demo_version_process
      and version_sort = demo_version_sort and tag_prefix = None,
      OF demo_empty_match demo_empty_chain _ demo_empty_merge demo_empty_process demo_empty_sort]
    demo_empty_match demo_empty_merge demo_empty_process demo_empty_sort
  by simp


end
